theory Spec2Isabelle
  imports Complex_Main
begin

section \<open>Pixel-Civilization: the simulation engine of main.cpp\<close>

text \<open>
  A shallow embedding of \<^verbatim>\<open>src/main.cpp\<close>. Conventions:
  \<^item> \<^verbatim>\<open>unsigned\<close> is a natural number, with the wrap-around modulo \<open>2 ^ 32\<close> written
    out (\<open>u32\<close>) wherever the source computes with it;
  \<^item> \<^verbatim>\<open>int\<close> is an integer; signed overflow and a conversion from \<^verbatim>\<open>float\<close> that
    leaves the range of \<^verbatim>\<open>int\<close> are undefined in C++ and are error values of the model;
  \<^item> \<^verbatim>\<open>float\<close> is IEEE 754 binary32: a finite value, an infinity or a NaN; every
    operation rounds its exact result to the nearest binary32 value, ties to even;
  \<^item> undefined behaviour (an index outside a vector, a distribution whose bounds are
    reversed) and the exception of \<^verbatim>\<open>std::map::at\<close> are values of the type \<open>error\<close>;
  \<^item> the random engine is an input: every call of \<^verbatim>\<open>generate_random\<close> receives the
    raw number the engine contributes to it.
\<close>

subsection \<open>Data model\<close>

datatype error =
    UB_index          \<comment> \<open>\<^verbatim>\<open>population_grid[i]\<close> with \<open>i\<close> outside the vector\<close>
  | UB_pixel          \<comment> \<open>\<^verbatim>\<open>getPixel\<close>/\<^verbatim>\<open>setPixel\<close> outside the pixel array\<close>
  | UB_distribution   \<comment> \<open>\<^verbatim>\<open>uniform_int_distribution{min, max}\<close> with \<open>max < min\<close>\<close>
  | UB_overflow       \<comment> \<open>signed overflow\<close>
  | UB_conversion     \<comment> \<open>\<^verbatim>\<open>float\<close> to \<^verbatim>\<open>int\<close> outside the range of \<^verbatim>\<open>int\<close>\<close>
  | UB_division       \<comment> \<open>\<^verbatim>\<open>from_idx % map.Width\<close> with a width of 0\<close>
  | out_of_range      \<comment> \<open>\<^verbatim>\<open>std::map::at\<close> on a missing key\<close>

definition u32 :: "nat \<Rightarrow> nat" where
  "u32 n = n mod 2 ^ 32"

definition INT_MAX :: int where
  "INT_MAX = 2 ^ 31 - 1"

definition INT_MIN :: int where
  "INT_MIN = - (2 ^ 31)"

text \<open>\<^verbatim>\<open>a + b\<close> on \<^verbatim>\<open>int\<close>.\<close>

definition add_int :: "int \<Rightarrow> int \<Rightarrow> error + int" where
  "add_int a b = (if INT_MIN \<le> a + b \<and> a + b \<le> INT_MAX then Inr (a + b) else Inl UB_overflow)"

subsection \<open>Binary32 numbers\<close>

text \<open>
  A \<^verbatim>\<open>float\<close> is a finite value, an infinity or a NaN. The two zeros are one value:
  the source never divides by a \<^verbatim>\<open>float\<close> and never looks at its sign bit. The finite
  values of the format are the numbers \<open>m * 2 ^ e\<close> with \<open>\<bar>m\<bar> < 2 ^ 24\<close> and
  \<open>- 149 \<le> e \<le> 104\<close>.
\<close>

datatype float = Finite real | PInf | NInf | NaN

text \<open>
  The binade of a magnitude \<open>a\<close>: the power of two \<open>2 ^ k\<close>, \<open>- 126 \<le> k \<le> 127\<close>, with
  \<open>2 ^ k \<le> a < 2 ^ (k + 1)\<close>; the least one below the normal range and the greatest one
  above it. It is searched from 1 upwards or downwards.
\<close>

fun binade_up :: "nat \<Rightarrow> real \<Rightarrow> real \<Rightarrow> real" where
  "binade_up 0 b a = b"
| "binade_up (Suc n) b a = (if a < 2 * b then b else binade_up n (2 * b) a)"

fun binade_down :: "nat \<Rightarrow> real \<Rightarrow> real \<Rightarrow> real" where
  "binade_down 0 b a = b"
| "binade_down (Suc n) b a = (if b \<le> a then b else binade_down n (b / 2) a)"

definition binade :: "real \<Rightarrow> real" where
  "binade a = (if 1 \<le> a then binade_up 127 1 a else binade_down 126 1 a)"

text \<open>The nearest integer, a tie going to the even one.\<close>

definition round_half_even :: "real \<Rightarrow> int" where
  "round_half_even q =
     (let f = \<lfloor>q\<rfloor>; d = q - of_int f
      in if d < 1 / 2 then f else if d > 1 / 2 then f + 1 else if even f then f else f + 1)"

text \<open>
  A magnitude rounded to 24 significant bits: to the nearest multiple of the unit in
  the last place of its binade, \<open>binade a / 2 ^ 23\<close>.
\<close>

definition round_magnitude :: "real \<Rightarrow> real" where
  "round_magnitude a =
     (let u = binade a / 2 ^ 23 in of_int (round_half_even (a / u)) * u)"

text \<open>Rounding a real result to \<^verbatim>\<open>float\<close>: a magnitude that rounds to \<open>2 ^ 128\<close> overflows.\<close>

definition float_round :: "real \<Rightarrow> float" where
  "float_round x =
     (let r = round_magnitude \<bar>x\<bar>
      in if r \<ge> 2 ^ 128 then (if x < 0 then NInf else PInf)
         else Finite (if x < 0 then - r else r))"

fun fneg :: "float \<Rightarrow> float" where
  "fneg (Finite x) = Finite (- x)"
| "fneg PInf = NInf"
| "fneg NInf = PInf"
| "fneg NaN = NaN"

fun fadd :: "float \<Rightarrow> float \<Rightarrow> float" where
  "fadd (Finite x) (Finite y) = float_round (x + y)"
| "fadd NaN y = NaN"
| "fadd x NaN = NaN"
| "fadd PInf NInf = NaN"
| "fadd NInf PInf = NaN"
| "fadd PInf y = PInf"
| "fadd x PInf = PInf"
| "fadd NInf y = NInf"
| "fadd x NInf = NInf"

definition fsub :: "float \<Rightarrow> float \<Rightarrow> float" where
  "fsub x y = fadd x (fneg y)"

fun fmul :: "float \<Rightarrow> float \<Rightarrow> float" where
  "fmul (Finite x) (Finite y) = float_round (x * y)"
| "fmul NaN y = NaN"
| "fmul x NaN = NaN"
| "fmul (Finite x) PInf = (if x = 0 then NaN else if x < 0 then NInf else PInf)"
| "fmul (Finite x) NInf = (if x = 0 then NaN else if x < 0 then PInf else NInf)"
| "fmul PInf (Finite y) = (if y = 0 then NaN else if y < 0 then NInf else PInf)"
| "fmul NInf (Finite y) = (if y = 0 then NaN else if y < 0 then PInf else NInf)"
| "fmul PInf PInf = PInf"
| "fmul PInf NInf = NInf"
| "fmul NInf PInf = NInf"
| "fmul NInf NInf = PInf"

text \<open>The comparisons \<^verbatim>\<open><\<close> and \<^verbatim>\<open><=\<close>; \<^verbatim>\<open>>\<close> and \<^verbatim>\<open>>=\<close> swap the operands. A NaN compares false.\<close>

fun flt :: "float \<Rightarrow> float \<Rightarrow> bool" where
  "flt NaN y = False"
| "flt x NaN = False"
| "flt (Finite x) (Finite y) = (x < y)"
| "flt PInf y = False"
| "flt x NInf = False"
| "flt NInf y = True"
| "flt x PInf = True"

fun fle :: "float \<Rightarrow> float \<Rightarrow> bool" where
  "fle NaN y = False"
| "fle x NaN = False"
| "fle (Finite x) (Finite y) = (x \<le> y)"
| "fle NInf y = True"
| "fle x PInf = True"
| "fle PInf y = False"
| "fle x NInf = False"

definition fgt :: "float \<Rightarrow> float \<Rightarrow> bool" where
  "fgt x y = flt y x"

definition fge :: "float \<Rightarrow> float \<Rightarrow> bool" where
  "fge x y = fle y x"

text \<open>\<^verbatim>\<open>(float) i\<close> rounds; \<^verbatim>\<open>(int) x\<close> truncates towards zero and is undefined outside \<^verbatim>\<open>int\<close>.\<close>

definition float_of_int :: "int \<Rightarrow> float" where
  "float_of_int i = float_round (of_int i)"

fun int_of_float :: "float \<Rightarrow> error + int" where
  "int_of_float (Finite x) =
     (let t = (if 0 \<le> x then \<lfloor>x\<rfloor> else \<lceil>x\<rceil>)
      in if INT_MIN \<le> t \<and> t \<le> INT_MAX then Inr t else Inl UB_conversion)"
| "int_of_float x = Inl UB_conversion"

text \<open>\<^verbatim>\<open>sf::Color\<close>: red, green, blue, alpha, each one byte. Equality compares all four.\<close>

datatype Color = Color nat nat nat nat

fun toInteger :: "Color \<Rightarrow> nat" where
  "toInteger (Color r g b a) = ((r * 256 + g) * 256 + b) * 256 + a"

definition White :: Color where
  "White = Color 255 255 255 255"

record Person =
  is_updated :: bool
  active :: bool
  color :: Color
  is_male :: bool
  disease :: float
  reproduction :: float
  age :: float
  strength :: int

record PopulationStats =
  count_total :: int
  count_diseased :: int
  sum_strength :: int
  sum_age :: int

text \<open>
  \<^verbatim>\<open>sf::Image\<close> (library code): a row-major pixel array; the pixel \<open>(x, y)\<close> is the
  element \<open>x + y * size_x\<close>, and neither accessor checks its coordinates.
\<close>

record Image =
  size_x :: nat
  pixels :: "Color list"

definition getPixel :: "Image \<Rightarrow> nat \<Rightarrow> nat \<Rightarrow> error + Color" where
  "getPixel img x y =
     (let k = x + y * size_x img
      in if k < length (pixels img) then Inr (pixels img ! k) else Inl UB_pixel)"

definition setPixel :: "Image \<Rightarrow> nat \<Rightarrow> nat \<Rightarrow> Color \<Rightarrow> error + Image" where
  "setPixel img x y c =
     (let k = x + y * size_x img
      in if k < length (pixels img) then Inr (img\<lparr>pixels := (pixels img)[k := c]\<rparr>)
         else Inl UB_pixel)"

text \<open>
  \<^verbatim>\<open>struct Map\<close>, without the texture and the surface (presentation only).
  \<open>TotalCells\<close> is \<^verbatim>\<open>Width*Height\<close> in unsigned arithmetic.
\<close>

record Map_t =
  Width :: nat
  Height :: nat
  population_grid :: "Person list"
  image_buffer :: Image

definition TotalCells :: "Map_t \<Rightarrow> nat" where
  "TotalCells m = u32 (Width m * Height m)"

text \<open>
  The cell the constructor fills the grid with,
  \<^verbatim>\<open>{ false, false, sf::Color::White, false, false, 0.f, 0.f, 0 }\<close>.
\<close>

definition inert_Person :: Person where
  "inert_Person =
     \<lparr>is_updated = False, active = False, color = White, is_male = False,
      disease = Finite 0, reproduction = Finite 0, age = Finite 0, strength = 0\<rparr>"

definition Map_create :: "nat \<Rightarrow> nat \<Rightarrow> Image \<Rightarrow> Map_t" where
  "Map_create width height img =
     \<lparr>Width = width, Height = height,
      population_grid = replicate (u32 (width * height)) inert_Person,
      image_buffer = img\<rparr>"

text \<open>
  \<^verbatim>\<open>Person* operator()(unsigned x, unsigned y) { return &population_grid[y * Width + x]; }\<close>
  The pointer is the index of the cell. There is no test of \<open>x\<close> against \<open>Width\<close> or
  of \<open>y\<close> against \<open>Height\<close>; an index outside the vector is undefined behaviour.
\<close>

definition Map_operator :: "Map_t \<Rightarrow> nat \<Rightarrow> nat \<Rightarrow> error + nat" where
  "Map_operator m x y =
     (let i = u32 (u32 (y * Width m) + x)
      in if i < length (population_grid m) then Inr i else Inl UB_index)"

record Config =
  MapWidth :: nat
  MapHeight :: nat
  DiseasedAgingFactor :: float
  ChanceForDisease :: nat
  MaxLengthDisease :: float
  MinYearsUntilReproduce :: nat
  MaxYearsUntilReproduce :: nat
  MinStartStrength :: nat
  MaxStartStrength :: nat

text \<open>The configuration \<^verbatim>\<open>main\<close> loads (the window size left out).\<close>

definition reference_config :: Config where
  "reference_config =
     \<lparr>MapWidth = 640, MapHeight = 360, DiseasedAgingFactor = Finite 16,
      ChanceForDisease = 20000, MaxLengthDisease = Finite 2,
      MinYearsUntilReproduce = 3, MaxYearsUntilReproduce = 12,
      MinStartStrength = 40, MaxStartStrength = 85\<rparr>"

text \<open>Conversions: \<^verbatim>\<open>unsigned\<close> to \<^verbatim>\<open>int\<close> and \<^verbatim>\<open>int\<close> to \<^verbatim>\<open>unsigned\<close>.\<close>

definition int_of_unsigned :: "nat \<Rightarrow> int" where
  "int_of_unsigned n =
     (if u32 n < 2 ^ 31 then int (u32 n) else int (u32 n) - 2 ^ 32)"

definition unsigned_of_int :: "int \<Rightarrow> nat" where
  "unsigned_of_int i = nat (i mod 2 ^ 32)"

subsection \<open>Random numbers\<close>

text \<open>
  \<^verbatim>\<open>generate_random(min, max)\<close> draws from \<^verbatim>\<open>std::uniform_int_distribution<int>{min, max}\<close>
  with the global engine. Engine and distribution are library code, modelled by their
  contract: the result is a member of the closed range \<open>[min, max]\<close>, selected by the raw
  number \<open>raw\<close> that the engine contributes to the call; every window of
  \<open>max - min + 1\<close> consecutive raw numbers selects every member exactly once.
  Reversed bounds violate the precondition of the distribution.
\<close>

definition generate_random :: "int \<Rightarrow> int \<Rightarrow> nat \<Rightarrow> error + int" where
  "generate_random min' max' raw =
     (if min' \<le> max' then Inr (min' + int (raw mod nat (max' - min' + 1)))
      else Inl UB_distribution)"

text \<open>
  \<^verbatim>\<open>random_destination\<close>: the switch over \<^verbatim>\<open>generate_random(0, 4)\<close>. The value 4 has no
  case and leaves the destination at the start. \<^verbatim>\<open>++destination.x\<close> is unsigned.
\<close>

definition random_destination :: "nat \<Rightarrow> nat \<Rightarrow> nat \<Rightarrow> nat \<Rightarrow> nat \<Rightarrow> error + nat \<times> nat" where
  "random_destination raw start_x start_y map_width map_height =
     (case generate_random 0 4 raw of
        Inl e \<Rightarrow> Inl e
      | Inr r \<Rightarrow>
          Inr (if r = 0 then (if start_x < map_width then u32 (start_x + 1) else start_x, start_y)
               else if r = 1 then (start_x, if start_y < map_height then u32 (start_y + 1) else start_y)
               else if r = 2 then (if start_x > 0 then start_x - 1 else start_x, start_y)
               else if r = 3 then (start_x, if start_y > 0 then start_y - 1 else start_y)
               else (start_x, start_y)))"

subsection \<open>The ranges of the four worker threads\<close>

text \<open>
  The \<open>(from_idx, length)\<close> pairs bound to \<^verbatim>\<open>update_population_in_range\<close> in
  \<^verbatim>\<open>thread_list\<close>, for a grid of \<open>n\<close> cells (\<^verbatim>\<open>map.TotalCells\<close>).
\<close>

definition thread_list :: "nat \<Rightarrow> (nat \<times> nat) list" where
  "thread_list n =
     [(0, n div 4),
      (n div 4, n div 4),
      (u32 ((n div 4) * 2), n div 4),
      (u32 ((n div 4) * 3), n div 4)]"

text \<open>The cells a range visits: \<^verbatim>\<open>begin() + from_idx\<close> up to \<^verbatim>\<open>begin() + from_idx + length\<close>.\<close>

definition range_cells :: "nat \<times> nat \<Rightarrow> nat list" where
  "range_cells fl = [fst fl ..< fst fl + snd fl]"

subsection \<open>Statistics as text\<close>

text \<open>\<^verbatim>\<open>std::to_string\<close> of an unsigned number.\<close>

fun digit_char :: "nat \<Rightarrow> char" where
  "digit_char d = char_of (48 + d)"

function to_string :: "nat \<Rightarrow> string" where
  "to_string n = (if n < 10 then [digit_char n] else to_string (n div 10) @ [digit_char (n mod 10)])"
  by pat_completeness auto
termination
  by (relation "measure id") auto

declare to_string.simps [simp del]

text \<open>
  The divisor of both averages of a team, \<^verbatim>\<open>(alive_total > 0 ? alive_total : 1)\<close>, and
  the four numbers printed for one team. The source repeats the same expressions for
  red, yellow, violet and blue; the sums are converted to \<^verbatim>\<open>unsigned\<close> by the division.
\<close>

definition avg_divisor :: "nat \<Rightarrow> nat" where
  "avg_divisor alive_total = (if alive_total > 0 then alive_total else 1)"

record team_numbers =
  alive_total :: nat
  diseased_total :: nat
  avg_str :: nat
  avg_age :: nat

definition team_statistics :: "PopulationStats \<Rightarrow> team_numbers" where
  "team_statistics stats =
     (let alive = unsigned_of_int (count_total stats);
          diseased = unsigned_of_int (count_diseased stats)
      in \<lparr>alive_total = alive, diseased_total = diseased,
          avg_str = unsigned_of_int (sum_strength stats) div avg_divisor alive,
          avg_age = unsigned_of_int (sum_age stats) div avg_divisor alive\<rparr>)"

definition global_colors :: "string \<Rightarrow> Color option" where
  "global_colors =
     map_of [(''tile-grass'', Color 0 255 0 255),
             (''tile-water'', Color 0 0 255 255),
             (''team-red'', Color 255 0 0 255),
             (''team-yellow'', Color 255 200 0 255),
             (''team-violet'', Color 128 0 255 255),
             (''team-blue'', Color 0 128 255 255)]"

definition at_map :: "('k \<Rightarrow> 'v option) \<Rightarrow> 'k \<Rightarrow> error + 'v" where
  "at_map m k = (case m k of None \<Rightarrow> Inl out_of_range | Some v \<Rightarrow> Inr v)"

definition team_stats_of ::
  "(nat \<Rightarrow> PopulationStats option) \<Rightarrow> (string \<Rightarrow> Color option) \<Rightarrow> string \<Rightarrow> error + PopulationStats" where
  "team_stats_of population_stats colors name =
     (case at_map colors name of
        Inl e \<Rightarrow> Inl e
      | Inr c \<Rightarrow> at_map population_stats (toInteger c))"

definition team_line :: "string \<Rightarrow> team_numbers \<Rightarrow> string" where
  "team_line label t =
     label @ ''Alive('' @ to_string (alive_total t) @
     '') Sick('' @ to_string (diseased_total t) @
     '') AvgAge('' @ to_string (avg_age t) @
     '') AvgStr('' @ to_string (avg_str t) @ '')'' @ [CHR 0x0A]"

definition population_statistics_to_string ::
  "nat \<Rightarrow> (nat \<Rightarrow> PopulationStats option) \<Rightarrow> (string \<Rightarrow> Color option) \<Rightarrow> error + string" where
  "population_statistics_to_string fps population_stats colors =
     (case team_stats_of population_stats colors ''team-red'' of Inl e \<Rightarrow> Inl e | Inr red_stats \<Rightarrow>
     (case team_stats_of population_stats colors ''team-yellow'' of Inl e \<Rightarrow> Inl e | Inr yellow_stats \<Rightarrow>
     (case team_stats_of population_stats colors ''team-violet'' of Inl e \<Rightarrow> Inl e | Inr violet_stats \<Rightarrow>
     (case team_stats_of population_stats colors ''team-blue'' of Inl e \<Rightarrow> Inl e | Inr blue_stats \<Rightarrow>
        Inr (''PixelCiv v0.8 ~ Fps '' @ to_string fps @ [CHR 0x0A] @
             team_line ''Red:    '' (team_statistics red_stats) @
             team_line ''Yellow: '' (team_statistics yellow_stats) @
             team_line ''Violet:  '' (team_statistics violet_stats) @
             team_line ''Blue:   '' (team_statistics blue_stats))))))"


subsection \<open>The transition rule\<close>

text \<open>
  The raw engine numbers of the calls of \<^verbatim>\<open>generate_random\<close> that one run of the
  per-person lambda can make, one field per call site, in the order of the source
  (lines 353, 356, 111, 374, 378, 379, 380, 397). Each site runs at most once per person.
\<close>

record Draws =
  draw_disease :: nat
  draw_disease_length :: nat
  draw_direction :: nat
  draw_parent_reproduction :: nat
  draw_baby_sex :: nat
  draw_baby_reproduction :: nat
  draw_baby_strength :: nat
  draw_infect :: nat

text \<open>What the lambda captures by reference and writes: the map and the statistics.\<close>

record Tick =
  map_v :: Map_t
  population_stats_v :: "nat \<Rightarrow> PopulationStats option"

text \<open>\<^verbatim>\<open>population_stats[k]\<close>: \<^verbatim>\<open>operator[]\<close> inserts a zero record for a missing key.\<close>

definition stats_entry :: "(nat \<Rightarrow> PopulationStats option) \<Rightarrow> nat \<Rightarrow> PopulationStats" where
  "stats_entry ps k =
     (case ps k of
        None \<Rightarrow> \<lparr>count_total = 0, count_diseased = 0, sum_strength = 0, sum_age = 0\<rparr>
      | Some s \<Rightarrow> s)"

text \<open>
  Lines 329-332, "Record stats": the four statements in their order. \<^verbatim>\<open>static_cast<int>\<close>
  of the age and the additions on \<^verbatim>\<open>int\<close> can leave the range of \<^verbatim>\<open>int\<close>.
\<close>

definition record_stats ::
  "Person \<Rightarrow> (nat \<Rightarrow> PopulationStats option) \<Rightarrow> error + (nat \<Rightarrow> PopulationStats option)" where
  "record_stats p ps =
     (let k = toInteger (color p); s = stats_entry ps k
      in case add_int (count_total s) 1 of Inl e \<Rightarrow> Inl e | Inr c \<Rightarrow>
        (case add_int (sum_strength s) (strength p) of Inl e \<Rightarrow> Inl e | Inr ss \<Rightarrow>
        (case int_of_float (age p) of Inl e \<Rightarrow> Inl e | Inr a \<Rightarrow>
        (case add_int (sum_age s) a of Inl e \<Rightarrow> Inl e | Inr sa \<Rightarrow>
           if fgt (disease p) (Finite 0)
           then (case add_int (count_diseased s) 1 of
                   Inl e \<Rightarrow> Inl e
                 | Inr cd \<Rightarrow>
                     Inr (ps(k \<mapsto> \<lparr>count_total = c, count_diseased = cd,
                                   sum_strength = ss, sum_age = sa\<rparr>)))
           else Inr (ps(k \<mapsto> \<lparr>count_total = c, count_diseased = count_diseased s,
                              sum_strength = ss, sum_age = sa\<rparr>))))))"

text \<open>
  The value of \<^verbatim>\<open>p = { false, false, sf::Color::White, 0.f, 0 }\<close> (line 338): the five
  initialisers fill \<open>is_updated\<close>, \<open>active\<close>, \<open>color\<close>, \<open>is_male\<close> (from \<open>0.f\<close>) and
  \<open>disease\<close>; the remaining members are zero.
\<close>

definition dead_Person :: Person where
  "dead_Person =
     \<lparr>is_updated = False, active = False, color = White, is_male = ((0::real) \<noteq> 0),
      disease = float_of_int 0, reproduction = Finite 0, age = Finite 0, strength = 0\<rparr>"

text \<open>Lines 335-339, "Increase age and check if the person is dead". Nothing returns here.\<close>

definition age_and_check_dead :: "float \<Rightarrow> Person \<Rightarrow> Person" where
  "age_and_check_dead DELTA p =
     (let p1 = p\<lparr>age := fadd (age p) DELTA\<rparr>
      in if fge (age p1) (float_of_int (strength p1)) \<or> fge (age p1) (Finite 85)
         then dead_Person else p1)"

text \<open>Lines 342-345, "Decrease reproduction counter".\<close>

definition decrease_reproduction :: "float \<Rightarrow> Person \<Rightarrow> Person" where
  "decrease_reproduction DELTA p =
     (if \<not> is_male p then p\<lparr>reproduction := fsub (reproduction p) DELTA\<rparr> else p)"

text \<open>Lines 348-357, "Handle diseases".\<close>

definition handle_diseases :: "Config \<Rightarrow> float \<Rightarrow> Draws \<Rightarrow> Person \<Rightarrow> error + Person" where
  "handle_diseases config DELTA d p =
     (if fgt (disease p) (Finite 0)
      then Inr (p\<lparr>age := fadd (age p) (fmul DELTA (DiseasedAgingFactor config)),
                 disease := fsub (disease p) DELTA\<rparr>)
      else (case generate_random 0 (int_of_unsigned (ChanceForDisease config)) (draw_disease d) of
              Inl e \<Rightarrow> Inl e
            | Inr r \<Rightarrow>
                if r = 1
                then (case int_of_float (MaxLengthDisease config) of
                        Inl e \<Rightarrow> Inl e
                      | Inr max_length \<Rightarrow>
                         (case generate_random 1 max_length (draw_disease_length d) of
                            Inl e \<Rightarrow> Inl e
                          | Inr l \<Rightarrow> Inr (p\<lparr>disease := float_of_int l\<rparr>)))
                else Inr p))"

text \<open>Line 360, "Set different color if diseased".\<close>

fun with_alpha :: "Color \<Rightarrow> nat \<Rightarrow> Color" where
  "with_alpha (Color r g b a) a' = Color r g b a'"

definition pixel_color_of :: "Person \<Rightarrow> Color" where
  "pixel_color_of p = (if fgt (disease p) (Finite 0) then with_alpha (color p) 160 else color p)"

text \<open>
  The four ways a person meets its target. \<open>i\<close> is the cell of \<open>p\<close> and \<open>j\<close> the cell
  \<open>target\<close> points to; both are cells of the same vector and may be the same cell, so
  every statement of the source is one update of the grid, in the source's order.
\<close>

text \<open>Lines 373-382, "Reset reproduction rate" and "Create baby at destination".\<close>

definition give_birth :: "Config \<Rightarrow> Draws \<Rightarrow> nat \<Rightarrow> nat \<Rightarrow> Person list \<Rightarrow> error + Person list" where
  "give_birth config d i j grid =
     (case generate_random (int_of_unsigned (MinYearsUntilReproduce config))
             (int_of_unsigned (MaxYearsUntilReproduce config)) (draw_parent_reproduction d) of
        Inl e \<Rightarrow> Inl e
      | Inr r1 \<Rightarrow>
     (let g1 = grid[i := (grid ! i)\<lparr>reproduction := float_of_int r1\<rparr>];
          g2 = g1[j := g1 ! i]
      in case generate_random 0 2 (draw_baby_sex d) of
        Inl e \<Rightarrow> Inl e
      | Inr r2 \<Rightarrow>
     (let g3 = g2[j := (g2 ! j)\<lparr>is_male := (r2 \<noteq> 0)\<rparr>]
      in case generate_random (int_of_unsigned (MinYearsUntilReproduce config))
             (int_of_unsigned (MaxYearsUntilReproduce config)) (draw_baby_reproduction d) of
        Inl e \<Rightarrow> Inl e
      | Inr r3 \<Rightarrow>
     (let g4 = g3[j := (g3 ! j)\<lparr>reproduction := float_of_int r3\<rparr>];
          s = strength (g4 ! i)
      in if s + 30 > INT_MAX then Inl UB_overflow
         else (case generate_random (if s > 15 then s - 15 else 15) (s + 30) (draw_baby_strength d) of
                 Inl e \<Rightarrow> Inl e
               | Inr r4 \<Rightarrow>
                   (let g5 = g4[j := (g4 ! j)\<lparr>strength := r4\<rparr>];
                        g6 = g5[j := (g5 ! j)\<lparr>age := Finite 1\<rparr>]
                    in Inr (g6[j := (g6 ! j)\<lparr>is_updated := True\<rparr>])))))))"

text \<open>Lines 388-390, "Walk to the destination if its not blocked by another person".\<close>

definition walk :: "nat \<Rightarrow> nat \<Rightarrow> Person list \<Rightarrow> Person list" where
  "walk i j grid =
     (let g1 = grid[j := grid ! i];
          g2 = g1[i := (g1 ! i)\<lparr>active := False\<rparr>]
      in g2[j := (g2 ! j)\<lparr>is_updated := True\<rparr>])"

text \<open>Lines 397-400, "Infect someone with a disease". \<^verbatim>\<open>&&\<close> draws only for a diseased \<open>p\<close>.\<close>

definition infect :: "Draws \<Rightarrow> nat \<Rightarrow> nat \<Rightarrow> Person list \<Rightarrow> error + Person list" where
  "infect d i j grid =
     (if fgt (disease (grid ! i)) (Finite 0)
      then (case generate_random 0 2 (draw_infect d) of
              Inl e \<Rightarrow> Inl e
            | Inr r \<Rightarrow>
                Inr (if r = 1 then grid[j := (grid ! j)\<lparr>disease := disease (grid ! i)\<rparr>] else grid))
      else Inr grid)"

text \<open>Lines 406-409, "Fight an enemy".\<close>

definition fight :: "nat \<Rightarrow> nat \<Rightarrow> Person list \<Rightarrow> Person list" where
  "fight i j grid =
     (if strength (grid ! j) > strength (grid ! i)
      then grid[i := (grid ! i)\<lparr>age := float_of_int (strength (grid ! i))\<rparr>]
      else grid[j := (grid ! j)\<lparr>age := float_of_int (strength (grid ! i))\<rparr>])"

text \<open>Writing the grid and one pixel back: the end of every branch of the lambda.\<close>

definition store :: "Tick \<Rightarrow> (nat \<Rightarrow> PopulationStats option) \<Rightarrow> Person list \<Rightarrow> nat \<Rightarrow> nat \<Rightarrow> Color \<Rightarrow> error + Tick" where
  "store st stats grid x y c =
     (case setPixel (image_buffer (map_v st)) x y c of
        Inl e \<Rightarrow> Inl e
      | Inr img \<Rightarrow>
          Inr (st\<lparr>map_v := (map_v st)\<lparr>population_grid := grid, image_buffer := img\<rparr>,
                  population_stats_v := stats\<rparr>))"

text \<open>
  Lines 368-415: the target is looked up and met. \<open>grid\<close> holds \<open>p\<close> as the steps before
  left it, and \<open>pixel_color\<close> was computed from that \<open>p\<close>.
\<close>

definition meet_target ::
  "Config \<Rightarrow> Draws \<Rightarrow> nat \<Rightarrow> nat \<Rightarrow> nat \<Rightarrow> nat \<Rightarrow> nat \<Rightarrow> Color \<Rightarrow>
   Tick \<Rightarrow> (nat \<Rightarrow> PopulationStats option) \<Rightarrow> Person list \<Rightarrow> error + Tick" where
  "meet_target config d idx_x idx_y i dx dy pixel_color st stats grid =
     (case Map_operator (map_v st) dx dy of
        Inl e \<Rightarrow> Inl e
      | Inr j \<Rightarrow>
          if \<not> active (grid ! j)
          then (if \<not> is_male (grid ! i) \<and> fle (reproduction (grid ! i)) (Finite 0)
                then (case give_birth config d i j grid of
                        Inl e \<Rightarrow> Inl e
                      | Inr grid' \<Rightarrow> store st stats grid' dx dy pixel_color)
                else store st stats (walk i j grid) dx dy pixel_color)
          else if color (grid ! j) = color (grid ! i)
          then (case infect d i j grid of
                  Inl e \<Rightarrow> Inl e
                | Inr grid' \<Rightarrow> store st stats grid' idx_x idx_y pixel_color)
          else if color (grid ! j) \<noteq> color (grid ! i)
          then store st stats (fight i j grid) idx_x idx_y pixel_color
          else store st stats grid idx_x idx_y pixel_color)"

text \<open>
  Lines 328-420: the branch \<^verbatim>\<open>else if (p.active)\<close> of the lambda, for the person \<open>p\<close> in
  cell \<open>i\<close> at the coordinates \<open>(idx_x, idx_y)\<close>.
\<close>

definition update_active ::
  "Config \<Rightarrow> float \<Rightarrow> Draws \<Rightarrow> nat \<Rightarrow> nat \<Rightarrow> nat \<Rightarrow> Tick \<Rightarrow> error + Tick" where
  "update_active config DELTA d idx_x idx_y i st =
     (let grid = population_grid (map_v st);
          p = grid ! i;
          p1 = decrease_reproduction DELTA (age_and_check_dead DELTA p)
      in case record_stats p (population_stats_v st) of
           Inl e \<Rightarrow> Inl e
         | Inr stats \<Rightarrow>
        (case handle_diseases config DELTA d p1 of
           Inl e \<Rightarrow> Inl e
         | Inr p2 \<Rightarrow>
             (case random_destination (draw_direction d) idx_x idx_y
                     (Width (map_v st)) (Height (map_v st)) of
                Inl e \<Rightarrow> Inl e
              | Inr destination \<Rightarrow>
                  (case getPixel (image_buffer (map_v st)) (fst destination) (snd destination) of
                     Inl e \<Rightarrow> Inl e
                   | Inr c \<Rightarrow>
                       (case at_map global_colors ''tile-grass'' of
                          Inl e \<Rightarrow> Inl e
                        | Inr grass \<Rightarrow>
                            if c = grass
                            then meet_target config d idx_x idx_y i (fst destination)
                                   (snd destination) (pixel_color_of p2) st stats (grid[i := p2])
                            else store st stats (grid[i := p2]) idx_x idx_y (pixel_color_of p2))))))"

text \<open>
  The lambda of \<^verbatim>\<open>std::for_each\<close> (lines 318-421) without the index counter: \<open>p\<close> is the
  cell \<open>i\<close> the iterator stands at, \<open>(idx_x, idx_y)\<close> the coordinates the loop keeps
  beside it. An inactive cell is left as it is.
\<close>

definition update_person ::
  "Config \<Rightarrow> float \<Rightarrow> Draws \<Rightarrow> nat \<Rightarrow> nat \<Rightarrow> nat \<Rightarrow> Tick \<Rightarrow> error + Tick" where
  "update_person config DELTA d idx_x idx_y i st =
     (let grid = population_grid (map_v st); p = grid ! i in
      if \<not> i < length grid then Inl UB_index
      else if active p \<and> is_updated p
      then store st (population_stats_v st) (grid[i := p\<lparr>is_updated := False\<rparr>])
             idx_x idx_y (color p)
      else if active p then update_active config DELTA d idx_x idx_y i st
      else Inr st)"

text \<open>
  \<^verbatim>\<open>std::for_each(from, to, ...)\<close> with the index counter of lines 424-428: \<open>n\<close> cells
  remain, \<open>i\<close> is the cell of the iterator. \<open>ds i\<close> are the draws of cell \<open>i\<close>.
\<close>

fun for_each_person ::
  "Config \<Rightarrow> float \<Rightarrow> (nat \<Rightarrow> Draws) \<Rightarrow> nat \<Rightarrow> nat \<Rightarrow> nat \<Rightarrow> nat \<Rightarrow> Tick \<Rightarrow> error + Tick" where
  "for_each_person config DELTA ds 0 i idx_x idx_y st = Inr st"
| "for_each_person config DELTA ds (Suc n) i idx_x idx_y st =
     (case update_person config DELTA (ds i) idx_x idx_y i st of
        Inl e \<Rightarrow> Inl e
      | Inr st' \<Rightarrow>
          if u32 (idx_x + 1) \<ge> Width (map_v st')
          then for_each_person config DELTA ds n (Suc i) 0 (u32 (idx_y + 1)) st'
          else for_each_person config DELTA ds n (Suc i) (u32 (idx_x + 1)) idx_y st')"

text \<open>
  \<^verbatim>\<open>update_population_in_range(from_idx, length)\<close>, lines 307-430. The iterators
  \<^verbatim>\<open>begin() + from_idx + length\<close> must stay inside the vector.
\<close>

definition update_population_in_range ::
  "Config \<Rightarrow> float \<Rightarrow> (nat \<Rightarrow> Draws) \<Rightarrow> nat \<Rightarrow> nat \<Rightarrow> Tick \<Rightarrow> error + Tick" where
  "update_population_in_range config DELTA ds from_idx length' st =
     (if Width (map_v st) = 0 then Inl UB_division
      else if from_idx + length' > length (population_grid (map_v st)) then Inl UB_index
      else for_each_person config DELTA ds length' from_idx
             (from_idx mod Width (map_v st)) (from_idx div Width (map_v st)) st)"


subsection \<open>The first population\<close>

text \<open>
  One round of the loop of \<^verbatim>\<open>create_tribe\<close> (lines 230-239) with its six draws: the
  position, and for a green pixel the sex, the reproduction timer, the age and the
  strength of the new person. The coordinates are \<^verbatim>\<open>int\<close> and become \<^verbatim>\<open>unsigned\<close> at
  \<^verbatim>\<open>getPixel\<close>, \<^verbatim>\<open>map(...)\<close> and \<^verbatim>\<open>setPixel\<close>.
\<close>

record Spawn_draws =
  draw_x :: nat
  draw_y :: nat
  draw_sex :: nat
  draw_reproduction :: nat
  draw_age :: nat
  draw_strength :: nat

definition Green :: Color where
  "Green = Color 0 255 0 255"

definition spawn :: "Config \<Rightarrow> Spawn_draws \<Rightarrow> int \<times> int \<Rightarrow> int \<times> int \<Rightarrow> Color \<Rightarrow> Map_t \<Rightarrow> error + Map_t" where
  "spawn config d ul lr c m =
     (case generate_random (fst ul) (fst lr) (draw_x d) of Inl e \<Rightarrow> Inl e | Inr x \<Rightarrow>
     (case generate_random (snd ul) (snd lr) (draw_y d) of Inl e \<Rightarrow> Inl e | Inr y \<Rightarrow>
     (case getPixel (image_buffer m) (unsigned_of_int x) (unsigned_of_int y) of
        Inl e \<Rightarrow> Inl e
      | Inr px \<Rightarrow>
          if px = Green
          then
           (case generate_random 0 2 (draw_sex d) of Inl e \<Rightarrow> Inl e | Inr rand_sex \<Rightarrow>
           (case generate_random 1 20 (draw_reproduction d) of Inl e \<Rightarrow> Inl e | Inr rand_reproduction \<Rightarrow>
           (case generate_random 1 35 (draw_age d) of Inl e \<Rightarrow> Inl e | Inr rand_age \<Rightarrow>
           (case generate_random (int_of_unsigned (MinStartStrength config))
                   (int_of_unsigned (MaxStartStrength config)) (draw_strength d) of
              Inl e \<Rightarrow> Inl e
            | Inr rand_strength \<Rightarrow>
           (case Map_operator m (unsigned_of_int x) (unsigned_of_int y) of
              Inl e \<Rightarrow> Inl e
            | Inr k \<Rightarrow>
           (case setPixel (image_buffer m) (unsigned_of_int x) (unsigned_of_int y) c of
              Inl e \<Rightarrow> Inl e
            | Inr img \<Rightarrow>
                Inr (m\<lparr>population_grid := (population_grid m)
                          [k := \<lparr>is_updated = True, active = True, color = c,
                                 is_male = (rand_sex \<noteq> 0), disease = Finite 0,
                                 reproduction = float_of_int rand_reproduction,
                                 age = float_of_int rand_age, strength = rand_strength\<rparr>],
                       image_buffer := img\<rparr>)))))))
          else Inr m)))"

text \<open>
  The loop of \<^verbatim>\<open>create_tribe(ul, lr, color, total_population)\<close>: \<open>n\<close> rounds remain, \<open>i\<close> is
  the loop counter and \<open>ds i\<close> are the draws of round \<open>i\<close>.
\<close>

fun create_tribe_from ::
  "Config \<Rightarrow> (nat \<Rightarrow> Spawn_draws) \<Rightarrow> int \<times> int \<Rightarrow> int \<times> int \<Rightarrow> Color \<Rightarrow> nat \<Rightarrow> nat \<Rightarrow> Map_t
   \<Rightarrow> error + Map_t" where
  "create_tribe_from config ds ul lr c 0 i m = Inr m"
| "create_tribe_from config ds ul lr c (Suc n) i m =
     (case spawn config (ds i) ul lr c m of
        Inl e \<Rightarrow> Inl e
      | Inr m' \<Rightarrow> create_tribe_from config ds ul lr c n (Suc i) m')"

definition create_tribe ::
  "Config \<Rightarrow> (nat \<Rightarrow> Spawn_draws) \<Rightarrow> int \<times> int \<Rightarrow> int \<times> int \<Rightarrow> Color \<Rightarrow> nat \<Rightarrow> Map_t
   \<Rightarrow> error + Map_t" where
  "create_tribe config ds ul lr c total_population m =
     create_tribe_from config ds ul lr c total_population 0 m"

subsection \<open>Observations and inputs for the examples\<close>

text \<open>
  A living person that was not moved in this tick, healthy, five years from reproducing;
  draws whose raw numbers are all 0 (but the direction); and a small world whose image has the
  width of the map, with empty statistics.
\<close>

definition person :: "Color \<Rightarrow> bool \<Rightarrow> real \<Rightarrow> int \<Rightarrow> Person" where
  "person c male a s =
     \<lparr>is_updated = False, active = True, color = c, is_male = male,
      disease = Finite 0, reproduction = Finite 5, age = Finite a, strength = s\<rparr>"

definition draws_towards :: "nat \<Rightarrow> Draws" where
  "draws_towards dir =
     \<lparr>draw_disease = 0, draw_disease_length = 0, draw_direction = dir,
      draw_parent_reproduction = 0, draw_baby_sex = 0, draw_baby_reproduction = 0,
      draw_baby_strength = 0, draw_infect = 0\<rparr>"

definition spawn_first :: Spawn_draws where
  "spawn_first =
     \<lparr>draw_x = 0, draw_y = 0, draw_sex = 0, draw_reproduction = 0, draw_age = 0,
      draw_strength = 0\<rparr>"

definition world :: "nat \<Rightarrow> nat \<Rightarrow> Person list \<Rightarrow> Color list \<Rightarrow> Tick" where
  "world w h grid pix =
     \<lparr>map_v = \<lparr>Width = w, Height = h, population_grid = grid,
               image_buffer = \<lparr>size_x = w, pixels = pix\<rparr>\<rparr>,
      population_stats_v = Map.empty\<rparr>"

definition grid_after :: "error + Tick \<Rightarrow> error + Person list" where
  "grid_after res = map_sum id (\<lambda>st. population_grid (map_v st)) res"

text \<open>The part of the data invariant that the transition rule keeps: who lives is strong.\<close>

definition strong_when_active :: "Person list \<Rightarrow> bool" where
  "strong_when_active grid = (\<forall>p \<in> set grid. active p \<longrightarrow> 0 < strength p)"

definition red :: Color where "red = Color 255 0 0 255"
definition blue :: Color where "blue = Color 0 128 255 255"
definition grass :: Color where "grass = Color 0 255 0 255"
definition water :: Color where "water = Color 0 0 255 255"

section \<open>Properties\<close>

subsection \<open>Shared facts\<close>

text \<open>Arithmetic of the row-major layout and of the four ranges.\<close>

lemma row_major_bound:
  fixes x y w h :: nat
  assumes "x < w" "y < h"
  shows "y * w + x < w * h"
proof -
  have "y * w + x < y * w + w" using assms by simp
  also have "\<dots> = (Suc y) * w" by simp
  also have "\<dots> \<le> h * w" using assms by (intro mult_le_mono1) simp
  finally show ?thesis by (simp add: mult.commute)
qed

lemma four_ranges:
  fixes q :: nat
  shows "[0 ..< q] @ [q ..< q + q] @ [q * 2 ..< q * 2 + q] @ [q * 3 ..< q * 3 + q] = [0 ..< 4 * q]"
proof -
  have e1: "q + q = q * 2" and e2: "q * 2 + q = q * 3" and e3: "q * 3 + q = 4 * q"
    by arith+
  have a: "[0 ..< q + q] = [0 ..< q] @ [q ..< q + q]"
    by (rule upt_add_eq_append) simp
  have b: "[0 ..< q * 2 + q] = [0 ..< q * 2] @ [q * 2 ..< q * 2 + q]"
    by (rule upt_add_eq_append) simp
  have c: "[0 ..< q * 3 + q] = [0 ..< q * 3] @ [q * 3 ..< q * 3 + q]"
    by (rule upt_add_eq_append) simp
  have "[0 ..< 4 * q] = [0 ..< q * 3 + q]" by (simp only: e3)
  also have "\<dots> = [0 ..< q * 2 + q] @ [q * 3 ..< q * 3 + q]" by (simp only: c e2)
  also have "\<dots> = ([0 ..< q + q] @ [q * 2 ..< q * 2 + q]) @ [q * 3 ..< q * 3 + q]"
    by (simp only: b e1)
  also have "\<dots> = (([0 ..< q] @ [q ..< q + q]) @ [q * 2 ..< q * 2 + q]) @ [q * 3 ..< q * 3 + q]"
    by (simp only: a)
  finally show ?thesis by (simp only: append_assoc)
qed

text \<open>Binary32: evaluation, binades, monotone and exact rounding.\<close>

lemma binade_up_numeral:
  "binade_up (numeral k) b a = (if a < 2 * b then b else binade_up (pred_numeral k) (2 * b) a)"
  by (simp add: numeral_eq_Suc)

lemma binade_down_numeral:
  "binade_down (numeral k) b a = (if b \<le> a then b else binade_down (pred_numeral k) (b / 2) a)"
  by (simp add: numeral_eq_Suc)

lemmas float_eval = float_round_def round_magnitude_def round_half_even_def binade_def
  binade_up_numeral binade_down_numeral Let_def


lemma binade_up_spec:
  assumes "b = 2 powi j" and "b \<le> a"
  shows "\<exists>k. binade_up n b a = 2 powi k \<and> j \<le> k \<and> k \<le> j + int n \<and> 2 powi k \<le> a \<and>
             (k = j + int n \<or> a < 2 powi (k + 1))"
  using assms
proof (induction n arbitrary: b j)
  case 0
  then show ?case by auto
next
  case (Suc n)
  have two: "2 * b = 2 powi (j + 1)" using Suc.prems(1) by (simp add: power_int_add_1')
  show ?case
  proof (cases "a < 2 * b")
    case True
    then show ?thesis using Suc.prems two by auto
  next
    case False
    then have "2 * b \<le> a" by simp
    from Suc.IH [OF two this] obtain k where
      "binade_up n (2 * b) a = 2 powi k" "j + 1 \<le> k" "k \<le> j + 1 + int n" "2 powi k \<le> a"
      "k = j + 1 + int n \<or> a < 2 powi (k + 1)"
      by blast
    with False show ?thesis by (intro exI [of _ k]) auto
  qed
qed

lemma binade_down_spec:
  assumes "b = 2 powi j" and "a < 2 * b"
  shows "\<exists>k. binade_down n b a = 2 powi k \<and> j - int n \<le> k \<and> k \<le> j \<and> a < 2 powi (k + 1) \<and>
             (k = j - int n \<or> 2 powi k \<le> a)"
  using assms
proof (induction n arbitrary: b j)
  case 0
  then show ?case by (auto simp: power_int_add_1')
next
  case (Suc n)
  have half: "b / 2 = 2 powi (j - 1)" using Suc.prems(1) by (simp add: power_int_diff)
  show ?case
  proof (cases "b \<le> a")
    case True
    then show ?thesis using Suc.prems by (intro exI [of _ j]) (auto simp: power_int_add_1')
  next
    case False
    then have "a < 2 * (b / 2)" by simp
    from Suc.IH [OF half this] obtain k where
      "binade_down n (b / 2) a = 2 powi k" "j - 1 - int n \<le> k" "k \<le> j - 1" "a < 2 powi (k + 1)"
      "k = j - 1 - int n \<or> 2 powi k \<le> a"
      by blast
    with False show ?thesis by (intro exI [of _ k]) auto
  qed
qed

lemma binade_spec:
  obtains k where "binade a = 2 powi k" and "- 126 \<le> k" and "k \<le> 127"
    and "k = - 126 \<or> 2 powi k \<le> a" and "k = 127 \<or> a < 2 powi (k + 1)"
proof (cases "1 \<le> a")
  case True
  from binade_up_spec [of 1 0 a 127] True obtain k where
    "binade_up 127 1 a = 2 powi k" "0 \<le> k" "k \<le> 127" "2 powi k \<le> a"
    "k = 127 \<or> a < 2 powi (k + 1)"
    by auto
  with True that [of k] show ?thesis by (simp add: binade_def)
next
  case False
  from binade_down_spec [of 1 0 a 126] False obtain k where
    "binade_down 126 1 a = 2 powi k" "- 126 \<le> k" "k \<le> 0" "a < 2 powi (k + 1)"
    "k = - 126 \<or> 2 powi k \<le> a"
    by auto
  with False that [of k] show ?thesis by (simp add: binade_def)
qed

lemma round_half_even_int [simp]: "round_half_even (of_int n) = n"
  by (simp add: round_half_even_def)

lemma round_half_even_cases:
  "round_half_even q = \<lfloor>q\<rfloor> \<or> round_half_even q = \<lfloor>q\<rfloor> + 1"
  by (simp add: round_half_even_def Let_def)

lemma round_half_even_mono:
  assumes "q \<le> q'"
  shows "round_half_even q \<le> round_half_even q'"
proof (cases "\<lfloor>q\<rfloor> = \<lfloor>q'\<rfloor>")
  case True
  with assms have "q - of_int \<lfloor>q\<rfloor> \<le> q' - of_int \<lfloor>q'\<rfloor>" by simp
  with True show ?thesis by (auto simp: round_half_even_def Let_def)
next
  case False
  with assms have "\<lfloor>q\<rfloor> + 1 \<le> \<lfloor>q'\<rfloor>" using floor_mono [OF assms] by linarith
  moreover have "round_half_even q \<le> \<lfloor>q\<rfloor> + 1" using round_half_even_cases [of q] by auto
  moreover have "\<lfloor>q'\<rfloor> \<le> round_half_even q'" using round_half_even_cases [of q'] by auto
  ultimately show ?thesis by linarith
qed

lemma round_half_even_le:
  assumes "q \<le> of_int n"
  shows "round_half_even q \<le> n"
  using round_half_even_mono [OF assms] by simp

lemma round_half_even_ge:
  assumes "of_int n \<le> q"
  shows "n \<le> round_half_even q"
  using round_half_even_mono [OF assms] by simp

lemma ulp_of_binade:
  "2 powi k / 2 ^ 23 = (2 powi (k - 23) :: real)"
  by (simp add: power_int_diff)

lemma round_magnitude_nonneg:
  assumes "0 \<le> a"
  shows "0 \<le> round_magnitude a"
proof -
  obtain k where k: "binade a = 2 powi k" by (rule binade_spec)
  have u: "0 < binade a / 2 ^ 23" by (simp add: k)
  then have "of_int 0 \<le> a / (binade a / 2 ^ 23)" using assms by simp
  then have "0 \<le> round_half_even (a / (binade a / 2 ^ 23))" by (rule round_half_even_ge)
  with u show ?thesis by (simp add: round_magnitude_def Let_def)
qed

lemma round_magnitude_mono:
  assumes "a \<le> a'"
  shows "round_magnitude a \<le> round_magnitude a'"
proof -
  obtain k where k: "binade a = 2 powi k" "k = - 126 \<or> 2 powi k \<le> a"
    "k = 127 \<or> a < 2 powi (k + 1)" "- 126 \<le> k" "k \<le> 127"
    by (rule binade_spec) blast
  obtain k' where k': "binade a' = 2 powi k'" "k' = - 126 \<or> 2 powi k' \<le> a'"
    "k' = 127 \<or> a' < 2 powi (k' + 1)" "- 126 \<le> k'" "k' \<le> 127"
    by (rule binade_spec) blast
  let ?u = "2 powi (k - 23) :: real" and ?u' = "2 powi (k' - 23) :: real"
  have u: "0 < ?u" "0 < ?u'" by simp_all
  have rm: "round_magnitude a = of_int (round_half_even (a / ?u)) * ?u"
    "round_magnitude a' = of_int (round_half_even (a' / ?u')) * ?u'"
    by (simp_all only: round_magnitude_def Let_def k k' ulp_of_binade)
  have le: "k \<le> k'"
  proof (rule ccontr)
    assume "\<not> k \<le> k'"
    then have lt: "k' + 1 \<le> k" by simp
    with k'(4) k(5) have "k \<noteq> - 126" "k' \<noteq> 127" by simp_all
    with k(2) k'(3) have "2 powi k \<le> a" "a' < 2 powi (k' + 1)" by simp_all
    moreover have "(2 powi (k' + 1) :: real) \<le> 2 powi k"
      using lt by (intro power_int_increasing) simp_all
    ultimately show False using assms by linarith
  qed
  show ?thesis
  proof (cases "k = k'")
    case True
    have "a / ?u \<le> a' / ?u" using assms u by (simp add: divide_right_mono)
    then have "round_half_even (a / ?u) \<le> round_half_even (a' / ?u)"
      by (rule round_half_even_mono)
    then have "of_int (round_half_even (a / ?u)) * ?u \<le> of_int (round_half_even (a' / ?u)) * ?u"
      using u by (simp add: mult_right_mono)
    with True rm show ?thesis by simp
  next
    case False
    with le have lt: "k + 1 \<le> k'" by simp
    with k'(5) k(3) have a: "a < 2 powi (k + 1)" by auto
    from lt k(4) k'(2) have a': "2 powi k' \<le> a'" by auto
    have e1: "(2 powi (k + 1) :: real) = 2 ^ 24 * ?u"
    proof -
      have "k + 1 = 24 + (k - 23)" by arith
      then have "(2 powi (k + 1) :: real) = 2 powi (24 + (k - 23))" by (rule arg_cong)
      also have "\<dots> = 2 powi 24 * 2 powi (k - 23)" by (subst power_int_add) simp_all
      finally show ?thesis by simp
    qed
    have e2: "(2 powi k' :: real) = 2 ^ 23 * ?u'"
    proof -
      have "k' = 23 + (k' - 23)" by arith
      then have "(2 powi k' :: real) = 2 powi (23 + (k' - 23))" by (rule arg_cong)
      also have "\<dots> = 2 powi 23 * 2 powi (k' - 23)" by (subst power_int_add) simp_all
      finally show ?thesis by simp
    qed
    have "a / ?u \<le> of_int (2 ^ 24)"
      using a u(1) by (simp add: e1 pos_divide_le_eq)
    then have "round_half_even (a / ?u) \<le> 2 ^ 24" by (rule round_half_even_le)
    then have "(of_int (round_half_even (a / ?u)) :: real) \<le> 2 ^ 24"
      by (metis of_int_le_iff of_int_numeral of_int_power)
    then have "round_magnitude a \<le> 2 ^ 24 * ?u"
      using u(1) by (simp add: rm mult_right_mono)
    also have "\<dots> = 2 powi (k + 1)" by (simp add: e1)
    also have "\<dots> \<le> 2 powi k'" using lt by (intro power_int_increasing) simp_all
    also have "\<dots> \<le> round_magnitude a'"
    proof -
      have "of_int (2 ^ 23) \<le> a' / ?u'"
        using a' u(2) by (simp add: e2 pos_le_divide_eq)
      then have "2 ^ 23 \<le> round_half_even (a' / ?u')" by (rule round_half_even_ge)
      then have "(2 ^ 23 :: real) \<le> of_int (round_half_even (a' / ?u'))"
        by (metis of_int_le_iff of_int_numeral of_int_power)
      then have "2 ^ 23 * ?u' \<le> round_magnitude a'"
        using u(2) by (simp add: rm mult_right_mono)
      then show ?thesis by (simp add: e2)
    qed
    finally show ?thesis .
  qed
qed

lemma float_round_mono:
  assumes "x \<le> y"
  shows "fle (float_round x) (float_round y)"
proof -
  have nn: "0 \<le> round_magnitude \<bar>x\<bar>" "0 \<le> round_magnitude \<bar>y\<bar>"
    by (simp_all add: round_magnitude_nonneg)
  consider (pos) "0 \<le> x" | (mixed) "x < 0" "0 \<le> y" | (neg) "y < 0"
    using assms by linarith
  then show ?thesis
  proof cases
    case pos
    then have "round_magnitude \<bar>x\<bar> \<le> round_magnitude \<bar>y\<bar>"
      using assms by (intro round_magnitude_mono) simp
    with pos assms show ?thesis by (simp add: float_round_def Let_def)
  next
    case mixed
    with nn show ?thesis by (simp add: float_round_def Let_def)
  next
    case neg
    then have "round_magnitude \<bar>y\<bar> \<le> round_magnitude \<bar>x\<bar>"
      using assms by (intro round_magnitude_mono) simp
    with neg assms show ?thesis by (simp add: float_round_def Let_def)
  qed
qed

lemma round_magnitude_int_exact:
  assumes "0 \<le> l" and "l \<le> 2 ^ 24"
  shows "round_magnitude (of_int l) = of_int l"
proof -
  obtain k where k: "binade (of_int l) = 2 powi k" "k = - 126 \<or> 2 powi k \<le> (of_int l :: real)"
    "k = 127 \<or> (of_int l :: real) < 2 powi (k + 1)" "- 126 \<le> k" "k \<le> 127"
    by (rule binade_spec) blast
  let ?u = "2 powi (k - 23) :: real"
  have rm: "round_magnitude (of_int l) = of_int (round_half_even (of_int l / ?u)) * ?u"
    by (simp only: round_magnitude_def Let_def k ulp_of_binade)
  have k24: "k \<le> 24"
  proof (rule ccontr)
    assume "\<not> k \<le> 24"
    then have "25 \<le> k" by simp
    then have "(2 powi 25 :: real) \<le> 2 powi k" by (intro power_int_increasing) simp_all
    moreover from \<open>25 \<le> k\<close> k(2) have "2 powi k \<le> (of_int l :: real)" by auto
    moreover have "(of_int l :: real) \<le> 2 ^ 24"
      using assms(2) by (metis of_int_le_iff of_int_numeral of_int_power)
    ultimately show False by simp
  qed
  have "\<exists>n. (of_int l :: real) / ?u = of_int n"
  proof (cases "k \<le> 23")
    case True
    then obtain m where m: "23 - k = int m" using nonneg_int_cases [of "23 - k"] by auto
    have "(of_int l :: real) / ?u = of_int l * 2 powi (23 - k)"
      by (simp add: power_int_diff field_simps)
    also have "\<dots> = of_int (l * 2 ^ m)" by (simp add: m power_int_of_nat)
    finally show ?thesis by blast
  next
    case False
    with k24 have k_eq: "k = 24" by simp
    with k(2) have "(2 ^ 24 :: real) \<le> of_int l" by simp
    then have "2 ^ 24 \<le> l" by (metis of_int_le_iff of_int_numeral of_int_power)
    with assms(2) have "l = 2 ^ 24" by simp
    then have "(of_int l :: real) / ?u = of_int (2 ^ 23)" by (simp add: k_eq)
    then show ?thesis by blast
  qed
  then obtain n where n: "(of_int l :: real) / ?u = of_int n" by blast
  then have "of_int n * ?u = (of_int l :: real)" by (simp add: field_simps)
  with rm n show ?thesis by simp
qed

lemma float_round_int_exact:
  assumes "0 \<le> l" and "l \<le> 2 ^ 24"
  shows "float_of_int l = Finite (of_int l)"
proof -
  have "(of_int l :: real) \<le> 2 ^ 24"
    using assms(2) by (metis of_int_le_iff of_int_numeral of_int_power)
  then have "(of_int l :: real) < 2 ^ 128" by simp
  then show ?thesis
    using assms by (simp add: float_of_int_def float_round_def round_magnitude_int_exact)
qed

lemma float_of_int_mono:
  assumes "i \<le> j"
  shows "fle (float_of_int i) (float_of_int j)"
  unfolding float_of_int_def by (rule float_round_mono) (simp add: assms)

lemma flt_not_fle:
  assumes "flt x y"
  shows "\<not> fle y x"
  using assms by (cases x; cases y) simp_all

lemma fle_not_flt:
  assumes "fle x y"
  shows "\<not> flt y x"
  using assms by (cases x; cases y) simp_all

text \<open>The contract of \<open>generate_random\<close>.\<close>

lemma generate_random_range:
  assumes "generate_random lo hi raw = Inr r"
  shows "lo \<le> r \<and> r \<le> hi \<and> r = lo + int (raw mod nat (hi - lo + 1))"
proof -
  from assms have le: "lo \<le> hi" and r: "r = lo + int (raw mod nat (hi - lo + 1))"
    by (auto simp: generate_random_def split: if_splits)
  have "raw mod nat (hi - lo + 1) < nat (hi - lo + 1)" using le by simp
  then have "int (raw mod nat (hi - lo + 1)) < hi - lo + 1" by linarith
  with r show ?thesis by simp
qed

lemma generate_random_window:
  assumes "lo \<le> hi" and "w < nat (hi - lo + 1)"
  shows "generate_random lo hi w = Inr (lo + int w)"
  using assms by (simp add: generate_random_def)

lemma generate_random_uniform:
  assumes "lo \<le> hi"
  shows "bij_betw (generate_random lo hi) {0 ..< nat (hi - lo + 1)} (Inr ` {lo .. hi})"
proof -
  have eq: "generate_random lo hi w = Inr (lo + int w)" if "w \<in> {0 ..< nat (hi - lo + 1)}" for w
    using that assms by (simp add: generate_random_window)
  have "bij_betw (\<lambda>w. Inr (lo + int w) :: error + int) {0 ..< nat (hi - lo + 1)} (Inr ` {lo .. hi})"
  proof (rule bij_betw_byWitness [where f' = "\<lambda>r. case r of Inr v \<Rightarrow> nat (v - lo) | Inl e \<Rightarrow> 0"])
    show "\<forall>w \<in> {0 ..< nat (hi - lo + 1)}.
        (case Inr (lo + int w) :: error + int of Inr v \<Rightarrow> nat (v - lo) | Inl e \<Rightarrow> 0) = w"
      by simp
    show "\<forall>r \<in> Inr ` {lo .. hi}.
        (Inr (lo + int (case r of Inr v \<Rightarrow> nat (v - lo) | Inl e \<Rightarrow> 0)) :: error + int) = r"
      by auto
    show "(\<lambda>w. Inr (lo + int w) :: error + int) ` {0 ..< nat (hi - lo + 1)} \<subseteq> Inr ` {lo .. hi}"
      by auto
    show "(\<lambda>r. case r of Inr v \<Rightarrow> nat (v - lo) | Inl e \<Rightarrow> 0) ` (Inr ` {lo .. hi} :: (error + int) set)
        \<subseteq> {0 ..< nat (hi - lo + 1)}"
      by auto
  qed
  moreover have "bij_betw (generate_random lo hi) {0 ..< nat (hi - lo + 1)} (Inr ` {lo .. hi})
      = bij_betw (\<lambda>w. Inr (lo + int w) :: error + int) {0 ..< nat (hi - lo + 1)} (Inr ` {lo .. hi})"
    by (rule bij_betw_cong) (rule eq)
  ultimately show ?thesis by simp
qed

lemma newborn_strength_positive:
  assumes "generate_random (if s > 15 then s - 15 else 15) (s + 30) raw = Inr r"
  shows "0 < r"
proof -
  from generate_random_range [OF assms] have "(if s > 15 then s - 15 else 15) \<le> r" by simp
  then show ?thesis by (simp split: if_splits)
qed

text \<open>What the pieces of the lambda leave behind.\<close>

lemma store_grid:
  assumes "store st stats grid x y c = Inr st'"
  shows "population_grid (map_v st') = grid \<and> Width (map_v st') = Width (map_v st) \<and>
         Height (map_v st') = Height (map_v st) \<and> population_stats_v st' = stats"
  using assms by (auto simp: store_def split: sum.splits)

lemma grid_after_Inr:
  assumes "grid_after res = Inr g"
  obtains st' where "res = Inr st'" and "g = population_grid (map_v st')"
  using assms by (cases res) (auto simp: grid_after_def)

lemma Map_operator_in_grid:
  assumes "Map_operator m x y = Inr j"
  shows "j < length (population_grid m)"
  using assms by (auto simp: Map_operator_def Let_def split: if_splits)

lemma give_birth_baby:
  assumes "give_birth config d i j grid = Inr g" and "i < length grid" and "j < length grid"
  shows "length g = length grid \<and>
         generate_random (if strength (grid ! i) > 15 then strength (grid ! i) - 15 else 15)
            (strength (grid ! i) + 30) (draw_baby_strength d) = Inr (strength (g ! j)) \<and>
         age (g ! j) = Finite 1 \<and> is_updated (g ! j) \<and>
         color (g ! j) = color (grid ! i) \<and> disease (g ! j) = disease (grid ! i) \<and>
         active (g ! j) = active (grid ! i)"
  using assms
  by (auto simp: give_birth_def Let_def nth_list_update split: sum.splits if_splits)

lemma give_birth_others:
  assumes "give_birth config d i j grid = Inr g" and "i < length grid" and "j < length grid"
  shows "(\<forall>k. k \<noteq> i \<longrightarrow> k \<noteq> j \<longrightarrow> g ! k = grid ! k) \<and>
         (i \<noteq> j \<longrightarrow> (\<exists>r. g ! i = (grid ! i)\<lparr>reproduction := r\<rparr>))"
  using assms
  by (auto simp: give_birth_def Let_def nth_list_update split: sum.splits if_splits)

lemma walk_result:
  assumes "i < length grid" and "j < length grid" and "i \<noteq> j"
  shows "walk i j grid ! i = (grid ! i)\<lparr>active := False\<rparr> \<and>
         walk i j grid ! j = (grid ! i)\<lparr>is_updated := True\<rparr> \<and>
         length (walk i j grid) = length grid"
  using assms by (simp add: walk_def Let_def)

lemma infect_result:
  assumes "infect d i j grid = Inr g" and "j < length grid"
  shows "active (g ! k) = active (grid ! k) \<and> age (g ! k) = age (grid ! k) \<and>
         strength (g ! k) = strength (grid ! k)"
  using assms by (auto simp: infect_def nth_list_update split: if_splits sum.splits)

lemma handle_diseases_fields:
  assumes "handle_diseases config DELTA d q = Inr p2"
  shows "active p2 = active q \<and> strength p2 = strength q \<and> color p2 = color q \<and>
         is_male p2 = is_male q \<and> reproduction p2 = reproduction q \<and>
         is_updated p2 = is_updated q \<and> (\<not> fgt (disease q) (Finite 0) \<longrightarrow> age p2 = age q)"
  using assms by (auto simp: handle_diseases_def split: if_splits sum.splits)

lemma aged_fields:
  assumes "active (decrease_reproduction DELTA (age_and_check_dead DELTA p))"
  shows "strength (decrease_reproduction DELTA (age_and_check_dead DELTA p)) = strength p \<and> active p"
  using assms
  by (auto simp: decrease_reproduction_def age_and_check_dead_def dead_Person_def Let_def
           split: if_splits)

lemma survivor_fields:
  assumes "flt (fadd (age p) DELTA) (float_of_int (strength p))"
    and "flt (fadd (age p) DELTA) (Finite 85)"
  shows "active (decrease_reproduction DELTA (age_and_check_dead DELTA p)) = active p \<and>
         age (decrease_reproduction DELTA (age_and_check_dead DELTA p)) = fadd (age p) DELTA \<and>
         strength (decrease_reproduction DELTA (age_and_check_dead DELTA p)) = strength p \<and>
         color (decrease_reproduction DELTA (age_and_check_dead DELTA p)) = color p \<and>
         disease (decrease_reproduction DELTA (age_and_check_dead DELTA p)) = disease p"
  using flt_not_fle [OF assms(1)] flt_not_fle [OF assms(2)]
  by (simp add: decrease_reproduction_def age_and_check_dead_def fge_def Let_def)

lemma update_active_cases:
  assumes "update_active config DELTA d idx_x idx_y i st = Inr st'"
  obtains p2 where
    "handle_diseases config DELTA d
       (decrease_reproduction DELTA (age_and_check_dead DELTA (population_grid (map_v st) ! i)))
     = Inr p2"
    and "(\<exists>dx dy stats. meet_target config d idx_x idx_y i dx dy (pixel_color_of p2) st stats
            ((population_grid (map_v st))[i := p2]) = Inr st') \<or>
         (\<exists>stats. store st stats ((population_grid (map_v st))[i := p2]) idx_x idx_y
            (pixel_color_of p2) = Inr st')"
proof -
  from assms obtain stats where
    "record_stats (population_grid (map_v st) ! i) (population_stats_v st) = Inr stats"
    by (auto simp: update_active_def Let_def split: sum.splits)
  with assms that show ?thesis
    by (auto simp: update_active_def Let_def split: sum.splits if_splits)
qed

lemma update_person_cases:
  assumes "update_person config DELTA d idx_x idx_y i st = Inr st'"
  shows "i < length (population_grid (map_v st)) \<and>
         (if active (population_grid (map_v st) ! i) \<and> is_updated (population_grid (map_v st) ! i)
          then store st (population_stats_v st)
                 ((population_grid (map_v st))
                    [i := (population_grid (map_v st) ! i)\<lparr>is_updated := False\<rparr>])
                 idx_x idx_y (color (population_grid (map_v st) ! i)) = Inr st'
          else if active (population_grid (map_v st) ! i)
          then update_active config DELTA d idx_x idx_y i st = Inr st'
          else st' = st)"
proof -
  have i: "i < length (population_grid (map_v st))"
  proof (rule ccontr)
    assume "\<not> i < length (population_grid (map_v st))"
    then have "update_person config DELTA d idx_x idx_y i st = Inl UB_index"
      by (simp add: update_person_def Let_def)
    with assms show False by simp
  qed
  with assms show ?thesis
    by (simp add: update_person_def Let_def split: if_splits)
qed

lemma meet_target_actor:
  assumes m: "meet_target config d idx_x idx_y i dx dy pc st stats grid = Inr st'"
    and i: "i < length grid"
    and len: "length grid = length (population_grid (map_v st))"
    and act: "active (grid ! i)"
  shows "(active (population_grid (map_v st') ! i) \<and>
            age (population_grid (map_v st') ! i) = age (grid ! i)) \<or>
         (active (population_grid (map_v st') ! i) \<and>
            age (population_grid (map_v st') ! i) = float_of_int (strength (grid ! i)) \<and>
            (\<exists>j < length grid. active (grid ! j) \<and> color (grid ! j) \<noteq> color (grid ! i) \<and>
                strength (grid ! i) < strength (grid ! j))) \<or>
         (\<not> active (population_grid (map_v st') ! i) \<and>
            (\<exists>j < length grid. \<not> active (grid ! j) \<and>
                population_grid (map_v st') ! j = (grid ! i)\<lparr>is_updated := True\<rparr>))"
proof -
  let ?g = "population_grid (map_v st')"
  from m obtain j where j: "Map_operator (map_v st) dx dy = Inr j"
    by (auto simp: meet_target_def split: sum.splits)
  then have jl: "j < length grid" using len by (simp add: Map_operator_in_grid)
  show ?thesis
  proof (cases "active (grid ! j)")
    case inactive: False
    then have ij: "i \<noteq> j" using act by auto
    show ?thesis
    proof (cases "\<not> is_male (grid ! i) \<and> fle (reproduction (grid ! i)) (Finite 0)")
      case True
      with m j inactive obtain g where
        b: "give_birth config d i j grid = Inr g" and s: "store st stats g dx dy pc = Inr st'"
        by (auto simp: meet_target_def split: sum.splits)
      from give_birth_others [OF b i jl] ij obtain r where
        "g ! i = (grid ! i)\<lparr>reproduction := r\<rparr>" by auto
      moreover from s have "?g = g" by (simp add: store_grid)
      ultimately show ?thesis using act by simp
    next
      case False
      with m j inactive have "store st stats (walk i j grid) dx dy pc = Inr st'"
        by (auto simp: meet_target_def)
      then have "?g = walk i j grid" by (simp add: store_grid)
      with walk_result [OF i jl ij] inactive jl show ?thesis by auto
    qed
  next
    case target_active: True
    show ?thesis
    proof (cases "color (grid ! j) = color (grid ! i)")
      case True
      with m j target_active obtain g where
        b: "infect d i j grid = Inr g" and s: "store st stats g idx_x idx_y pc = Inr st'"
        by (auto simp: meet_target_def split: sum.splits)
      from s have "?g = g" by (simp add: store_grid)
      with infect_result [OF b jl, of i] show ?thesis using act by simp
    next
      case False
      then have ij: "i \<noteq> j" by auto
      from False m j target_active
      have "store st stats (fight i j grid) idx_x idx_y pc = Inr st'"
        by (auto simp: meet_target_def)
      then have g: "?g = fight i j grid" by (simp add: store_grid)
      show ?thesis
      proof (cases "strength (grid ! i) < strength (grid ! j)")
        case True
        then have "fight i j grid ! i = (grid ! i)\<lparr>age := float_of_int (strength (grid ! i))\<rparr>"
          using i by (simp add: fight_def)
        with g act True False target_active jl show ?thesis by auto
      next
        case weaker: False
        then have "fight i j grid ! i = grid ! i"
          using ij by (simp add: fight_def)
        with g act show ?thesis by simp
      qed
    qed
  qed
qed

lemma for_each_person_numeral:
  "for_each_person config DELTA ds (numeral k) i idx_x idx_y st =
     (case update_person config DELTA (ds i) idx_x idx_y i st of
        Inl e \<Rightarrow> Inl e
      | Inr st' \<Rightarrow>
          if u32 (idx_x + 1) \<ge> Width (map_v st')
          then for_each_person config DELTA ds (pred_numeral k) (Suc i) 0 (u32 (idx_y + 1)) st'
          else for_each_person config DELTA ds (pred_numeral k) (Suc i) (u32 (idx_x + 1)) idx_y st')"
  by (simp add: numeral_eq_Suc)

text \<open>The living are strong: the invariant through every piece of the lambda.\<close>

lemma swa_update:
  assumes "strong_when_active g" and "active x \<longrightarrow> 0 < strength x"
  shows "strong_when_active (g[k := x])"
proof -
  have "set (g[k := x]) \<subseteq> insert x (set g)" by (rule set_update_subset_insert)
  with assms show ?thesis by (auto simp: strong_when_active_def)
qed

lemma swa_nth:
  assumes "strong_when_active g" and "k < length g" and "active (g ! k)"
  shows "0 < strength (g ! k)"
  using assms by (auto simp: strong_when_active_def)

lemma swa_all_nth:
  "strong_when_active g = (\<forall>k < length g. active (g ! k) \<longrightarrow> 0 < strength (g ! k))"
  by (simp add: strong_when_active_def all_set_conv_all_nth)

lemma swa_walk:
  assumes "strong_when_active g" and "i < length g" and "j < length g"
  shows "strong_when_active (walk i j g)"
  using assms
  by (auto simp: walk_def Let_def nth_list_update intro!: swa_update dest: swa_nth)

lemma swa_fight:
  assumes "strong_when_active g" and "i < length g" and "j < length g"
  shows "strong_when_active (fight i j g)"
  using assms
  by (auto simp: fight_def intro!: swa_update dest: swa_nth)

lemma swa_infect:
  assumes "strong_when_active g" and "i < length g" and "j < length g"
    and "infect d i j g = Inr g'"
  shows "strong_when_active g'"
  using assms
  by (auto simp: infect_def split: if_splits sum.splits intro!: swa_update dest: swa_nth)

lemma swa_give_birth:
  assumes "strong_when_active g" and "i < length g" and "j < length g"
    and "give_birth config d i j g = Inr g'"
  shows "strong_when_active g'"
proof -
  note baby = give_birth_baby [OF assms(4,2,3)]
  note others = give_birth_others [OF assms(4,2,3)]
  from baby have pos: "0 < strength (g' ! j)"
    using newborn_strength_positive by blast
  have "0 < strength (g' ! k)" if k: "k < length g'" and a: "active (g' ! k)" for k
  proof (cases "k = j")
    case True
    with pos show ?thesis by simp
  next
    case kj: False
    show ?thesis
    proof (cases "k = i")
      case True
      with kj others obtain r where e: "g' ! i = (g ! i)\<lparr>reproduction := r\<rparr>" by auto
      with a True have "active (g ! i)" by simp
      then have "0 < strength (g ! i)" using assms(1,2) by (simp add: swa_nth)
      then show ?thesis using True e by simp
    next
      case False
      with kj others have "g' ! k = g ! k" by simp
      then show ?thesis using a k baby assms(1) by (simp add: swa_nth)
    qed
  qed
  then show ?thesis by (simp add: swa_all_nth)
qed

lemma swa_meet_target:
  assumes "strong_when_active grid" and "i < length grid"
    and "length grid = length (population_grid (map_v st))"
    and "meet_target config d idx_x idx_y i dx dy pc st stats grid = Inr st'"
  shows "strong_when_active (population_grid (map_v st'))"
proof -
  from assms(4) obtain j where j: "Map_operator (map_v st) dx dy = Inr j"
    by (auto simp: meet_target_def split: sum.splits)
  then have jl: "j < length grid" using assms(3) by (simp add: Map_operator_in_grid)
  consider
      (birth) g where "give_birth config d i j grid = Inr g" "store st stats g dx dy pc = Inr st'"
    | (walk) "store st stats (walk i j grid) dx dy pc = Inr st'"
    | (infect) g where "infect d i j grid = Inr g" "store st stats g idx_x idx_y pc = Inr st'"
    | (fight) "store st stats (fight i j grid) idx_x idx_y pc = Inr st'"
    | (none) "store st stats grid idx_x idx_y pc = Inr st'"
    using assms(4) j by (auto simp: meet_target_def split: sum.splits if_splits)
  then show ?thesis
  proof cases
    case birth
    then show ?thesis using swa_give_birth [OF assms(1,2) jl] by (simp add: store_grid)
  next
    case walk
    then show ?thesis using swa_walk [OF assms(1,2) jl] by (simp add: store_grid)
  next
    case infect
    then show ?thesis using swa_infect [OF assms(1,2) jl] by (simp add: store_grid)
  next
    case fight
    then show ?thesis using swa_fight [OF assms(1,2) jl] by (simp add: store_grid)
  next
    case none
    then show ?thesis using assms(1) by (simp add: store_grid)
  qed
qed

lemma swa_update_active:
  assumes "strong_when_active (population_grid (map_v st))"
    and "i < length (population_grid (map_v st))"
    and "update_active config DELTA d idx_x idx_y i st = Inr st'"
  shows "strong_when_active (population_grid (map_v st'))"
proof -
  let ?grid = "population_grid (map_v st)"
  let ?p1 = "decrease_reproduction DELTA (age_and_check_dead DELTA (?grid ! i))"
  from assms(3) obtain p2 where p2: "handle_diseases config DELTA d ?p1 = Inr p2"
    and c: "(\<exists>dx dy stats. meet_target config d idx_x idx_y i dx dy (pixel_color_of p2) st stats
               (?grid[i := p2]) = Inr st') \<or>
            (\<exists>stats. store st stats (?grid[i := p2]) idx_x idx_y (pixel_color_of p2) = Inr st')"
    by (rule update_active_cases)
  have "active p2 \<longrightarrow> 0 < strength p2"
    using handle_diseases_fields [OF p2] aged_fields [of DELTA "?grid ! i"] assms(1,2)
    by (auto dest: swa_nth)
  then have g2: "strong_when_active (?grid[i := p2])"
    using assms(1) by (rule swa_update [rotated])
  from c show ?thesis
  proof
    assume "\<exists>dx dy stats. meet_target config d idx_x idx_y i dx dy (pixel_color_of p2) st stats
               (?grid[i := p2]) = Inr st'"
    then obtain dx dy stats where "meet_target config d idx_x idx_y i dx dy (pixel_color_of p2)
        st stats (?grid[i := p2]) = Inr st'"
      by blast
    then show ?thesis using swa_meet_target [OF g2] assms(2) by simp
  next
    assume "\<exists>stats. store st stats (?grid[i := p2]) idx_x idx_y (pixel_color_of p2) = Inr st'"
    then show ?thesis using g2 by (auto simp: store_grid)
  qed
qed

lemma swa_update_person:
  assumes "strong_when_active (population_grid (map_v st))"
    and "update_person config DELTA d idx_x idx_y i st = Inr st'"
  shows "strong_when_active (population_grid (map_v st'))"
proof -
  let ?grid = "population_grid (map_v st)"
  note c = update_person_cases [OF assms(2)]
  then have i: "i < length ?grid" by simp
  show ?thesis
  proof (cases "active (?grid ! i) \<and> is_updated (?grid ! i)")
    case True
    with c have s: "store st (population_stats_v st)
        (?grid[i := (?grid ! i)\<lparr>is_updated := False\<rparr>]) idx_x idx_y (color (?grid ! i)) = Inr st'"
      by simp
    have "active ((?grid ! i)\<lparr>is_updated := False\<rparr>) \<longrightarrow> 0 < strength ((?grid ! i)\<lparr>is_updated := False\<rparr>)"
      using assms(1) i by (simp add: swa_nth)
    with assms(1) have "strong_when_active (?grid[i := (?grid ! i)\<lparr>is_updated := False\<rparr>])"
      by (rule swa_update)
    with s show ?thesis by (simp add: store_grid)
  next
    case False
    show ?thesis
    proof (cases "active (?grid ! i)")
      case True
      with False c have "update_active config DELTA d idx_x idx_y i st = Inr st'" by simp
      then show ?thesis using swa_update_active [OF assms(1) i] by simp
    next
      case inactive: False
      with False c have "st' = st" by simp
      then show ?thesis using assms(1) by simp
    qed
  qed
qed

lemma swa_for_each_person:
  assumes "strong_when_active (population_grid (map_v st))"
    and "for_each_person config DELTA ds n i idx_x idx_y st = Inr st'"
  shows "strong_when_active (population_grid (map_v st'))"
  using assms
proof (induction n arbitrary: i idx_x idx_y st)
  case 0
  then show ?case by simp
next
  case (Suc n)
  from Suc.prems(2) obtain st1 where
    st1: "update_person config DELTA (ds i) idx_x idx_y i st = Inr st1"
    by (auto split: sum.splits)
  have inv1: "strong_when_active (population_grid (map_v st1))"
    using Suc.prems(1) st1 by (rule swa_update_person)
  from Suc.prems(2) st1 show ?case
    using Suc.IH [OF inv1] by (auto split: if_splits)
qed

lemma swa_Map_create: "strong_when_active (population_grid (Map_create w h img))"
  by (simp add: strong_when_active_def Map_create_def inert_Person_def)

lemma swa_spawn:
  assumes "strong_when_active (population_grid m)"
    and "0 < MinStartStrength config" and "MinStartStrength config < 2 ^ 31"
    and "spawn config d ul lr c m = Inr m'"
  shows "strong_when_active (population_grid m')"
proof -
  have lo: "0 < int_of_unsigned (MinStartStrength config)"
    using assms(2,3) by (simp add: int_of_unsigned_def u32_def)
  have "0 < r" if "generate_random (int_of_unsigned (MinStartStrength config))
      (int_of_unsigned (MaxStartStrength config)) raw = Inr r" for raw r
    using generate_random_range [OF that] lo by simp
  with assms(1,4) show ?thesis
    by (auto simp: spawn_def split: sum.splits if_splits intro!: swa_update)
qed

lemma swa_create_tribe_from:
  assumes "strong_when_active (population_grid m)"
    and "0 < MinStartStrength config" and "MinStartStrength config < 2 ^ 31"
    and "create_tribe_from config ds ul lr c n i m = Inr m'"
  shows "strong_when_active (population_grid m')"
  using assms(1,4)
proof (induction n arbitrary: i m)
  case 0
  then show ?case by simp
next
  case (Suc n)
  from Suc.prems(2) obtain m1 where m1: "spawn config (ds i) ul lr c m = Inr m1"
    and rest: "create_tribe_from config ds ul lr c n (Suc i) m1 = Inr m'"
    by (auto split: sum.splits)
  from Suc.prems(1) assms(2,3) m1 have "strong_when_active (population_grid m1)"
    by (rule swa_spawn)
  then show ?case using rest by (rule Suc.IH)
qed

text \<open>The definitions a concrete run is evaluated with.\<close>

lemmas model_defs =
  update_person_def update_active_def meet_target_def store_def give_birth_def walk_def
  infect_def fight_def handle_diseases_def decrease_reproduction_def age_and_check_dead_def
  dead_Person_def pixel_color_of_def random_destination_def generate_random_def
  Map_operator_def getPixel_def setPixel_def record_stats_def stats_entry_def
  at_map_def global_colors_def u32_def int_of_unsigned_def INT_MAX_def INT_MIN_def add_int_def
  reference_config_def person_def draws_towards_def world_def grid_after_def
  red_def blue_def grass_def water_def inert_Person_def White_def
  fgt_def fge_def fsub_def float_of_int_def float_eval

subsection \<open>The invariant of the cells (C1)\<close>

text \<open>
  C1 as stated does not hold: an inactive cell need not be inert. A male person of strength
  40 walks to the free cell on its right; the cell it leaves has \<open>active\<close> cleared and
  nothing else: it keeps the group, the age and the strength. The grid before satisfied
  the claimed invariant (its inactive cell is the inert one).
\<close>

theorem inactive_cells_counterexample:
  "strong_when_active [person red True 10 40, inert_Person] \<and>
   grid_after (update_person reference_config (Finite (1 / 64)) (draws_towards 0) 0 0 0
      (world 2 1 [person red True 10 40, inert_Person] [grass, grass]))
   = Inr [(person red True (10 + 1 / 64) 40)\<lparr>active := False\<rparr>,
          (person red True (10 + 1 / 64) 40)\<lparr>is_updated := True\<rparr>] \<and>
   \<not> active ((person red True (10 + 1 / 64) 40)\<lparr>active := False\<rparr>) \<and>
   (person red True (10 + 1 / 64) 40)\<lparr>active := False\<rparr> \<noteq> inert_Person \<and>
   color ((person red True (10 + 1 / 64) 40)\<lparr>active := False\<rparr>) = red \<and>
   age ((person red True (10 + 1 / 64) 40)\<lparr>active := False\<rparr>) = Finite (10 + 1 / 64) \<and>
   strength ((person red True (10 + 1 / 64) 40)\<lparr>active := False\<rparr>) = 40"
  by (simp add: model_defs strong_when_active_def split del: if_split)

text \<open>
  C1, amended: every active cell has a strength above 0. The new map satisfies this;
  \<open>create_tribe\<close> keeps it when the least start strength of the configuration is
  positive and below \<open>2 ^ 31\<close>; and every application of the transition rule that returns
  keeps it, for one cell (\<open>update_person\<close>) and for a whole range
  (\<open>update_population_in_range\<close>). Of an inactive cell only \<open>active = False\<close> is kept:
  when a living person meets an inactive target cell and does not give birth (it is male,
  or its reproduction timer is not at most 0), the cell it leaves holds the person as it
  was but for \<open>active\<close>, which is cleared, and the target cell holds the person as it was
  but for the updated flag, which is set.
\<close>

theorem strength_invariant:
  "strong_when_active (population_grid (Map_create w h img)) \<and>
   (strong_when_active (population_grid m) \<and>
    0 < MinStartStrength config \<and> MinStartStrength config < 2 ^ 31 \<and>
    create_tribe config sds ul lr c total_population m = Inr m' \<longrightarrow>
      strong_when_active (population_grid m')) \<and>
   (strong_when_active (population_grid (map_v st)) \<and>
    grid_after (update_person config DELTA d idx_x idx_y i st) = Inr g \<longrightarrow>
      strong_when_active g) \<and>
   (strong_when_active (population_grid (map_v st)) \<and>
    grid_after (update_population_in_range config DELTA ds from_idx n st) = Inr g' \<longrightarrow>
      strong_when_active g') \<and>
   (Map_operator (map_v st) dx dy = Inr j \<and>
    length grid = length (population_grid (map_v st)) \<and> i < length grid \<and>
    active (grid ! i) \<and> \<not> active (grid ! j) \<and>
    (is_male (grid ! i) \<or> \<not> fle (reproduction (grid ! i)) (Finite 0)) \<and>
    grid_after (meet_target config d idx_x idx_y i dx dy pixel_color st stats grid) = Inr gm \<longrightarrow>
      gm ! i = (grid ! i)\<lparr>active := False\<rparr> \<and> gm ! j = (grid ! i)\<lparr>is_updated := True\<rparr>)"
proof -
  have created: "strong_when_active (population_grid (Map_create w h img))"
    by (rule swa_Map_create)
  have tribe: "strong_when_active (population_grid m')"
    if "strong_when_active (population_grid m) \<and>
      0 < MinStartStrength config \<and> MinStartStrength config < 2 ^ 31 \<and>
      create_tribe config sds ul lr c total_population m = Inr m'"
    using that swa_create_tribe_from [of m config sds ul lr c total_population 0 m']
    by (simp add: create_tribe_def)
  have cell: "strong_when_active g"
    if a: "strong_when_active (population_grid (map_v st)) \<and>
      grid_after (update_person config DELTA d idx_x idx_y i st) = Inr g"
  proof -
    from a obtain st' where "update_person config DELTA d idx_x idx_y i st = Inr st'"
      and "g = population_grid (map_v st')"
      by (blast elim: grid_after_Inr)
    with a show ?thesis using swa_update_person [of st config DELTA d idx_x idx_y i st']
      by simp
  qed
  have range: "strong_when_active g'"
    if a: "strong_when_active (population_grid (map_v st)) \<and>
      grid_after (update_population_in_range config DELTA ds from_idx n st) = Inr g'"
  proof -
    from a obtain st' where r: "update_population_in_range config DELTA ds from_idx n st = Inr st'"
      and g': "g' = population_grid (map_v st')"
      by (blast elim: grid_after_Inr)
    from r have "for_each_person config DELTA ds n from_idx
        (from_idx mod Width (map_v st)) (from_idx div Width (map_v st)) st = Inr st'"
      by (simp add: update_population_in_range_def split: if_splits)
    with a g' show ?thesis
      using swa_for_each_person [of st config DELTA ds n from_idx _ _ st'] by simp
  qed
  have walked: "gm ! i = (grid ! i)\<lparr>active := False\<rparr> \<and> gm ! j = (grid ! i)\<lparr>is_updated := True\<rparr>"
    if a: "Map_operator (map_v st) dx dy = Inr j \<and>
      length grid = length (population_grid (map_v st)) \<and> i < length grid \<and>
      active (grid ! i) \<and> \<not> active (grid ! j) \<and>
      (is_male (grid ! i) \<or> \<not> fle (reproduction (grid ! i)) (Finite 0)) \<and>
      grid_after (meet_target config d idx_x idx_y i dx dy pixel_color st stats grid) = Inr gm"
  proof -
    from a have "Map_operator (map_v st) dx dy = Inr j" by simp
    then have "j < length (population_grid (map_v st))" by (rule Map_operator_in_grid)
    with a have j: "j < length grid" by simp
    from a have ij: "i \<noteq> j" by auto
    from a have i: "i < length grid" by simp
    from a obtain st' where
      m: "meet_target config d idx_x idx_y i dx dy pixel_color st stats grid = Inr st'"
      and gm: "gm = population_grid (map_v st')"
      by (blast elim: grid_after_Inr)
    from a m have "store st stats (walk i j grid) dx dy pixel_color = Inr st'"
      by (auto simp: meet_target_def)
    with gm have "gm = walk i j grid" by (simp add: store_grid)
    with walk_result [OF i j ij] show ?thesis by simp
  qed
  from created tribe cell range walked show ?thesis by blast
qed

theorem strength_invariant_witness:
  "create_tribe reference_config (\<lambda>i. spawn_first) (0, 0) (1, 0) red 1
      (Map_create 2 1 \<lparr>size_x = 2, pixels = [grass, grass]\<rparr>)
   = Inr \<lparr>Width = 2, Height = 1,
          population_grid = [\<lparr>is_updated = True, active = True, color = red, is_male = False,
             disease = Finite 0, reproduction = Finite 1, age = Finite 1, strength = 40\<rparr>, inert_Person],
          image_buffer = \<lparr>size_x = 2, pixels = [red, grass]\<rparr>\<rparr> \<and>
   strong_when_active [\<lparr>is_updated = True, active = True, color = red, is_male = False,
             disease = Finite 0, reproduction = Finite 1, age = Finite 1, strength = 40\<rparr>, inert_Person] \<and>
   grid_after (update_person reference_config (Finite (1 / 64)) (draws_towards 0) 0 0 0
      (world 2 1 [(person red False 10 40)\<lparr>reproduction := Finite 0\<rparr>, inert_Person] [grass, grass]))
   = Inr [(person red False (10 + 1 / 64) 40)\<lparr>reproduction := Finite 3\<rparr>,
          \<lparr>is_updated = True, active = True, color = red, is_male = False,
           disease = Finite 0, reproduction = Finite 3, age = Finite 1, strength = 25\<rparr>] \<and>
   strong_when_active [(person red False (10 + 1 / 64) 40)\<lparr>reproduction := Finite 3\<rparr>,
          \<lparr>is_updated = True, active = True, color = red, is_male = False,
           disease = Finite 0, reproduction = Finite 3, age = Finite 1, strength = 25\<rparr>] \<and>
   grid_after (update_population_in_range reference_config (Finite (1 / 64)) (\<lambda>i. draws_towards 0) 0 2
      (world 2 1 [(person red False 10 40)\<lparr>reproduction := Finite 0\<rparr>, inert_Person] [grass, grass]))
   = Inr [(person red False (10 + 1 / 64) 40)\<lparr>reproduction := Finite 3\<rparr>,
          \<lparr>is_updated = False, active = True, color = red, is_male = False,
           disease = Finite 0, reproduction = Finite 3, age = Finite 1, strength = 25\<rparr>] \<and>
   strong_when_active [(person red False (10 + 1 / 64) 40)\<lparr>reproduction := Finite 3\<rparr>,
          \<lparr>is_updated = False, active = True, color = red, is_male = False,
           disease = Finite 0, reproduction = Finite 3, age = Finite 1, strength = 25\<rparr>] \<and>
   grid_after (meet_target reference_config (draws_towards 0) 0 0 0 1 0 red
      (world 2 1 [person red True 10 40, inert_Person] [grass, grass]) Map.empty
      [person red True 10 40, inert_Person])
   = Inr [(person red True 10 40)\<lparr>active := False\<rparr>, (person red True 10 40)\<lparr>is_updated := True\<rparr>]"
proof -
  let ?m0 = "Map_create 2 1 \<lparr>size_x = 2, pixels = [grass, grass]\<rparr>"
  let ?st = "world 2 1 [(person red False 10 40)\<lparr>reproduction := Finite 0\<rparr>, inert_Person] [grass, grass]"
  let ?sw = "world 2 1 [person red True 10 40, inert_Person] [grass, grass]"
  let ?gw = "[person red True 10 40, inert_Person]"
  let ?gm = "[(person red True 10 40)\<lparr>active := False\<rparr>, (person red True 10 40)\<lparr>is_updated := True\<rparr>]"
  have tribe: "create_tribe reference_config (\<lambda>i. spawn_first) (0, 0) (1, 0) red 1 ?m0
      = Inr \<lparr>Width = 2, Height = 1,
          population_grid = [\<lparr>is_updated = True, active = True, color = red, is_male = False,
             disease = Finite 0, reproduction = Finite 1, age = Finite 1, strength = 40\<rparr>, inert_Person],
          image_buffer = \<lparr>size_x = 2, pixels = [red, grass]\<rparr>\<rparr>"
  proof -
    have two: "replicate 2 x = [x, x]" for x :: Person
      by (simp add: numeral_2_eq_2)
    show ?thesis
      by (simp add: create_tribe_def spawn_def spawn_first_def Map_create_def Green_def
            unsigned_of_int_def two model_defs split del: if_split)
  qed
  have inv: "strong_when_active (population_grid (map_v ?st))"
    by (simp add: strong_when_active_def world_def person_def inert_Person_def)
  have one: "grid_after (update_person reference_config (Finite (1 / 64)) (draws_towards 0) 0 0 0 ?st)
   = Inr [(person red False (10 + 1 / 64) 40)\<lparr>reproduction := Finite 3\<rparr>,
          \<lparr>is_updated = True, active = True, color = red, is_male = False,
           disease = Finite 0, reproduction = Finite 3, age = Finite 1, strength = 25\<rparr>]"
    by (simp add: model_defs split del: if_split)
  have range: "grid_after (update_population_in_range reference_config (Finite (1 / 64))
      (\<lambda>i. draws_towards 0) 0 2 ?st)
   = Inr [(person red False (10 + 1 / 64) 40)\<lparr>reproduction := Finite 3\<rparr>,
          \<lparr>is_updated = False, active = True, color = red, is_male = False,
           disease = Finite 0, reproduction = Finite 3, age = Finite 1, strength = 25\<rparr>]"
    by (simp add: model_defs update_population_in_range_def for_each_person_numeral split del: if_split)
  have cfg: "0 < MinStartStrength reference_config \<and> MinStartStrength reference_config < 2 ^ 31"
    by (simp add: reference_config_def)
  have walked: "grid_after (meet_target reference_config (draws_towards 0) 0 0 0 1 0 red ?sw
      Map.empty ?gw) = Inr ?gm"
    by (simp add: model_defs split del: if_split)
  have pre: "Map_operator (map_v ?sw) 1 0 = Inr 1 \<and>
    length ?gw = length (population_grid (map_v ?sw)) \<and> 0 < length ?gw \<and>
    active (?gw ! 0) \<and> \<not> active (?gw ! 1) \<and>
    (is_male (?gw ! 0) \<or> \<not> fle (reproduction (?gw ! 0)) (Finite 0))"
    by (simp add: model_defs split del: if_split)
  let ?g1 = "[(person red False (10 + 1 / 64) 40)\<lparr>reproduction := Finite 3\<rparr>,
          \<lparr>is_updated = True, active = True, color = red, is_male = False,
           disease = Finite 0, reproduction = Finite 3, age = Finite 1, strength = 25\<rparr>]"
  let ?g2 = "[(person red False (10 + 1 / 64) 40)\<lparr>reproduction := Finite 3\<rparr>,
          \<lparr>is_updated = False, active = True, color = red, is_male = False,
           disease = Finite 0, reproduction = Finite 3, age = Finite 1, strength = 25\<rparr>]"
  let ?m1 = "\<lparr>Width = 2, Height = 1,
          population_grid = [\<lparr>is_updated = True, active = True, color = red, is_male = False,
             disease = Finite 0, reproduction = Finite 1, age = Finite 1, strength = 40\<rparr>, inert_Person],
          image_buffer = \<lparr>size_x = 2, pixels = [red, grass]\<rparr>\<rparr>"
  note T = strength_invariant [of 2 1 "\<lparr>size_x = 2, pixels = [grass, grass]\<rparr>" ?m0
      reference_config "\<lambda>i. spawn_first" "(0, 0)" "(1, 0)" red 1 ?m1 ?st "Finite (1 / 64)"
      "draws_towards 0" 0 0 0 ?g1 "\<lambda>i. draws_towards 0" 0 2 ?g2]
  note W = strength_invariant [of 2 1 "\<lparr>size_x = 2, pixels = [grass, grass]\<rparr>" ?m0
      reference_config "\<lambda>i. spawn_first" "(0, 0)" "(1, 0)" red 1 ?m1 ?sw "Finite (1 / 64)"
      "draws_towards 0" 0 0 0 ?g1 "\<lambda>i. draws_towards 0" 0 2 ?g2 1 0 1 ?gw red Map.empty ?gm]
  from T tribe cfg have a: "strong_when_active (population_grid ?m1)" by blast
  from T one inv have b: "strong_when_active ?g1" by blast
  from T range inv have c: "strong_when_active ?g2" by blast
  from a have a': "strong_when_active [\<lparr>is_updated = True, active = True, color = red,
      is_male = False, disease = Finite 0, reproduction = Finite 1, age = Finite 1, strength = 40\<rparr>,
      inert_Person]"
    by simp
  from W pre walked have w: "?gm ! 0 = (?gw ! 0)\<lparr>active := False\<rparr>" by blast
  from tribe a' one b range c walked show ?thesis by blast
qed

subsection \<open>Movement target (C2)\<close>

text \<open>
  C2 says that the destination is one of the four Manhattan neighbours and always lies
  inside the grid. The guard of case 0 is \<^verbatim>\<open>destination.x < map_width\<close>, so from the last
  column \<open>x = 639\<close> of the 640 x 360 map the draw 0 yields \<open>x = 640\<close>, outside the grid;
  \<^verbatim>\<open>map(640, 10)\<close> is then the cell \<open>(0, 11)\<close> of the next row. From the last row the
  draw 1 yields \<open>y = 360\<close>, and \<^verbatim>\<open>map(10, 360)\<close> is outside the vector. The draw 4, which
  \<^verbatim>\<open>generate_random(0, 4)\<close> also returns, moves nowhere.
\<close>

theorem random_destination_leaves_grid:
  "random_destination 0 639 10 640 360 = Inr (640, 10) \<and>
   Map_operator (Map_create 640 360 \<lparr>size_x = 640, pixels = []\<rparr>) 640 10 = Inr (11 * 640 + 0) \<and>
   random_destination 1 10 359 640 360 = Inr (10, 360) \<and>
   Map_operator (Map_create 640 360 \<lparr>size_x = 640, pixels = []\<rparr>) 10 360 = Inl UB_index \<and>
   random_destination 4 5 5 640 360 = Inr (5, 5)"
  by (simp add: random_destination_def generate_random_def u32_def Map_operator_def Map_create_def)

subsection \<open>Death (C3)\<close>

text \<open>
  C3 says that a person who dies is reset and that no later step is applied to it. The
  lambda has no \<^verbatim>\<open>return\<close> after the reset of line 338. A male person of age 50 and
  strength 40 dies; the reset cell is not male, so its reproduction timer is decreased to \<open>- 1/64\<close>,
  and with a free grass cell on its right the birth branch runs: the timer of the dead
  cell becomes 3, and the target cell, still inactive, gets the age 1, the strength 15
  and the updated flag. On water the dead cell keeps the timer \<open>- 1/64\<close>.
\<close>

theorem death_does_not_stop_processing:
  "grid_after (update_person reference_config (Finite (1 / 64)) (draws_towards 0) 0 0 0
      (world 2 1 [person red True 50 40, inert_Person] [grass, grass]))
   = Inr [inert_Person\<lparr>reproduction := Finite 3\<rparr>,
          \<lparr>is_updated = True, active = False, color = White, is_male = False,
           disease = Finite 0, reproduction = Finite 3, age = Finite 1, strength = 15\<rparr>] \<and>
   grid_after (update_person reference_config (Finite (1 / 64)) (draws_towards 0) 0 0 0
      (world 2 1 [person red True 50 40, inert_Person] [water, water]))
   = Inr [inert_Person\<lparr>reproduction := Finite (- (1 / 64))\<rparr>, inert_Person]"
  by (simp add: model_defs split del: if_split)

subsection \<open>Combat (C4)\<close>

text \<open>
  C4 as stated does not hold. A red person of strength 40 that attacks a blue one of
  strength 50 gets the age 40, its own strength, not 50; and when both have the strength
  40 it is the target whose age is set, while the acting cell is left as it was.
\<close>

theorem fight_counterexample:
  "strength (person red True 10 40) < strength (person blue True 20 50) \<and>
   age (fight 0 1 [person red True 10 40, person blue True 20 50] ! 0) = Finite 40 \<and>
   age (fight 0 1 [person red True 10 40, person blue True 20 50] ! 0) \<noteq> Finite 50 \<and>
   strength (person red True 10 40) = strength (person blue True 20 40) \<and>
   age (fight 0 1 [person red True 10 40, person blue True 20 40] ! 1) = Finite 40 \<and>
   fight 0 1 [person red True 10 40, person blue True 20 40] ! 0 = person red True 10 40"
  by (simp add: fight_def person_def float_of_int_def float_eval split del: if_split)

text \<open>
  C4, amended: in combat (the target is of another group), when the target is strictly
  stronger the acting cell's age is set to the acting cell's own strength and the target
  is left as it is; otherwise (the target is weaker or as strong) the target's age is set
  to the acting cell's strength, which is at least the target's own, and the acting cell
  is left as it is. Equal strengths spare the acting cell. The strength is written as a
  \<^verbatim>\<open>float\<close>, and "at least" is the test \<^verbatim>\<open>age >= strength\<close> of the death check.
\<close>

theorem fight_outcome:
  assumes "i < length grid" and "j < length grid" and "color (grid ! j) \<noteq> color (grid ! i)"
  shows "(strength (grid ! i) < strength (grid ! j) \<longrightarrow>
            fight i j grid ! i = (grid ! i)\<lparr>age := float_of_int (strength (grid ! i))\<rparr> \<and>
            fight i j grid ! j = grid ! j) \<and>
         (strength (grid ! j) \<le> strength (grid ! i) \<longrightarrow>
            fight i j grid ! j = (grid ! j)\<lparr>age := float_of_int (strength (grid ! i))\<rparr> \<and>
            fight i j grid ! i = grid ! i \<and>
            fge (age (fight i j grid ! j)) (float_of_int (strength (fight i j grid ! j))))"
proof -
  have "i \<noteq> j" using assms(3) by auto
  then show ?thesis
    using assms(1,2) by (simp add: fight_def fge_def float_of_int_mono)
qed

theorem fight_outcome_witness:
  "fight 0 1 [person red True 10 40, person blue True 20 50] ! 0 =
     (person red True 10 40)\<lparr>age := Finite 40\<rparr> \<and>
   fight 0 1 [person red True 10 50, person blue True 20 40] ! 1 =
     (person blue True 20 40)\<lparr>age := Finite 50\<rparr>"
  using fight_outcome [of 0 "[person red True 10 40, person blue True 20 50]" 1]
        fight_outcome [of 0 "[person red True 10 50, person blue True 20 40]" 1]
  by (simp add: person_def red_def blue_def float_of_int_def float_eval split del: if_split)

subsection \<open>Cell access (C5)\<close>

text \<open>
  C5 as stated (access fails with OutOfBounds whenever \<open>x \<ge> width\<close>) does not hold: on
  a 3 x 3 map the access to \<open>(3, 0)\<close> succeeds and yields cell 3, which is \<open>(0, 1)\<close>.
\<close>

theorem Map_operator_no_bounds_check_counterexample:
  "Width (Map_create 3 3 \<lparr>size_x = 3, pixels = []\<rparr>) \<le> 3 \<and>
   Map_operator (Map_create 3 3 \<lparr>size_x = 3, pixels = []\<rparr>) 3 0 = Inr 3"
  by (simp add: Map_operator_def Map_create_def u32_def)

text \<open>
  C5, amended: the access does not look at the bounds. On a grid of
  \<open>Width * Height < 2 ^ 32\<close> cells, coordinates inside the grid yield the cell of
  row-major index \<open>y * Width + x\<close>; any coordinates yield the cell of index
  \<open>(y * Width + x) mod 2 ^ 32\<close> when the grid has such a cell, and are an access outside
  the vector otherwise. No coordinate test and no OutOfBounds report exists.
\<close>

theorem Map_operator_unchecked:
  assumes "length (population_grid m) = TotalCells m" and "Width m * Height m < 2 ^ 32"
  shows "(x < Width m \<and> y < Height m \<longrightarrow>
            Map_operator m x y = Inr (y * Width m + x) \<and> y * Width m + x < TotalCells m) \<and>
         (u32 (u32 (y * Width m) + x) < TotalCells m \<longrightarrow>
            Map_operator m x y = Inr (u32 (u32 (y * Width m) + x))) \<and>
         (\<not> u32 (u32 (y * Width m) + x) < TotalCells m \<longrightarrow>
            Map_operator m x y = Inl UB_index)"
proof -
  have T: "TotalCells m = Width m * Height m"
    using assms(2) by (simp add: TotalCells_def u32_def)
  have in_grid: "Map_operator m x y = Inr (y * Width m + x) \<and> y * Width m + x < TotalCells m"
    if "x < Width m" "y < Height m"
  proof -
    have b: "y * Width m + x < Width m * Height m"
      using that by (rule row_major_bound)
    then have "y * Width m + x < 2 ^ 32" using assms(2) by linarith
    moreover have "y * Width m \<le> y * Width m + x" by simp
    ultimately have "u32 (u32 (y * Width m) + x) = y * Width m + x"
      by (simp add: u32_def)
    then show ?thesis using b assms(1) T by (simp add: Map_operator_def)
  qed
  show ?thesis
    using in_grid assms(1) by (simp add: Map_operator_def)
qed

theorem Map_operator_unchecked_witness:
  "Map_operator (Map_create 3 2 \<lparr>size_x = 3, pixels = []\<rparr>) 2 1 = Inr 5 \<and>
   Map_operator (Map_create 3 2 \<lparr>size_x = 3, pixels = []\<rparr>) 3 0 = Inr 3 \<and>
   Map_operator (Map_create 3 2 \<lparr>size_x = 3, pixels = []\<rparr>) 3 1 = Inl UB_index"
  using Map_operator_unchecked [of "Map_create 3 2 \<lparr>size_x = 3, pixels = []\<rparr>" 2 1]
        Map_operator_unchecked [of "Map_create 3 2 \<lparr>size_x = 3, pixels = []\<rparr>" 3 0]
        Map_operator_unchecked [of "Map_create 3 2 \<lparr>size_x = 3, pixels = []\<rparr>" 3 1]
  by (simp add: Map_create_def TotalCells_def u32_def)

subsection \<open>Worker ranges (C6)\<close>

text \<open>
  C6 as stated (for every grid the ranges cover every cell) does not hold: all four
  ranges have the length \<open>TotalCells / 4\<close>, rounded down, so a grid of 9 cells (3 x 3)
  has ranges of 2 cells and its last cell, 8, is in none of them.
\<close>

theorem thread_list_counterexample:
  "8 < (9::nat) \<and> 8 \<notin> set (concat (map range_cells (thread_list 9)))"
  by (simp add: thread_list_def range_cells_def u32_def)

text \<open>
  C6, amended: the four ranges, one after the other, are exactly the cells
  \<open>0, 1, ..., 4 * (n div 4) - 1\<close> in row-major order, each once (so they are contiguous
  and do not overlap), and all have the same length \<open>n div 4\<close>. They cover every cell
  when the number of cells is a multiple of 4, as the 640 x 360 cells of the reference are.
\<close>

theorem thread_list_ranges:
  assumes "n < 2 ^ 32"
  shows "concat (map range_cells (thread_list n)) = [0 ..< 4 * (n div 4)] \<and>
         (\<forall>r \<in> set (thread_list n). snd r = n div 4) \<and>
         (4 dvd n \<longrightarrow> concat (map range_cells (thread_list n)) = [0 ..< n])"
proof -
  have q: "u32 (n div 4 * 2) = n div 4 * 2" "u32 (n div 4 * 3) = n div 4 * 3"
    using assms by (simp_all add: u32_def)
  have cover: "concat (map range_cells (thread_list n)) = [0 ..< 4 * (n div 4)]"
    using four_ranges [of "n div 4"] by (simp add: thread_list_def range_cells_def q)
  have len: "\<forall>r \<in> set (thread_list n). snd r = n div 4"
    by (simp add: thread_list_def)
  have "4 * (n div 4) = n" if "4 dvd n" using that by simp
  with cover len show ?thesis by simp
qed

theorem thread_list_ranges_witness:
  "concat (map range_cells (thread_list 8)) = [0 ..< 8] \<and>
   map snd (thread_list 8) = [2, 2, 2, 2]"
  using thread_list_ranges [of 8] by (simp add: thread_list_def)

subsection \<open>New infections (C7)\<close>

text \<open>
  C7 as stated does not hold for every configuration. With \<open>ChanceForDisease = 0\<close> the
  claim gives the probability \<open>1 / (0 + 1) = 1\<close>, but \<^verbatim>\<open>generate_random(0, 0)\<close> only
  returns 0, never 1: the one outcome of the window leaves the healthy person as it is.
  And a maximal length above \<open>2 ^ 24\<close> does not give every integer duration: with
  \<open>MaxLengthDisease = 2 ^ 25\<close> the drawn duration \<open>2 ^ 24 + 1\<close> is stored as the
  \<^verbatim>\<open>float\<close> \<open>2 ^ 24\<close>.
\<close>

theorem infection_draw_counterexample:
  "{0 ..< ChanceForDisease (reference_config\<lparr>ChanceForDisease := 0\<rparr>) + 1} = {0} \<and>
   handle_diseases (reference_config\<lparr>ChanceForDisease := 0\<rparr>) (Finite (1 / 64))
      ((draws_towards 0)\<lparr>draw_disease := 0\<rparr>) (person red True 10 40)
     = Inr (person red True 10 40) \<and>
   (1 :: real) / real (ChanceForDisease (reference_config\<lparr>ChanceForDisease := 0\<rparr>) + 1) = 1 \<and>
   handle_diseases (reference_config\<lparr>MaxLengthDisease := Finite (2 ^ 25)\<rparr>) (Finite (1 / 64))
      ((draws_towards 0)\<lparr>draw_disease := 1, draw_disease_length := 2 ^ 24\<rparr>)
      (person red True 10 40)
     = Inr ((person red True 10 40)\<lparr>disease := Finite (2 ^ 24)\<rparr>) \<and>
   generate_random 1 (2 ^ 25) (2 ^ 24) = Inr (2 ^ 24 + 1)"
  by (simp add: model_defs split del: if_split)

text \<open>
  C7, amended: for a healthy person (\<open>disease \<le> 0\<close>): when \<open>ChanceForDisease\<close> is 0 no
  infection is ever drawn; when \<open>1 \<le> ChanceForDisease < 2 ^ 31\<close> and
  \<open>1 \<le> MaxLengthDisease \<le> 2 ^ 24\<close>, exactly one of the \<open>ChanceForDisease + 1\<close> equally
  likely draws of \<^verbatim>\<open>generate_random(0, ChanceForDisease)\<close> changes the person, and the draws
  of the length select the durations \<open>1, ..., \<lfloor>MaxLengthDisease\<rfloor>\<close>, each by exactly one raw
  number of a window.
\<close>

theorem new_infection_draw:
  assumes "fle (disease p) (Finite 0)"
  shows "(ChanceForDisease config = 0 \<longrightarrow> handle_diseases config DELTA d p = Inr p) \<and>
         (1 \<le> ChanceForDisease config \<and> ChanceForDisease config < 2 ^ 31 \<and>
          MaxLengthDisease config = Finite M \<and> 1 \<le> M \<and> M \<le> 2 ^ 24 \<longrightarrow>
            card {w \<in> {0 ..< ChanceForDisease config + 1}.
                    handle_diseases config DELTA (d\<lparr>draw_disease := w\<rparr>) p \<noteq> Inr p} = 1 \<and>
            card {0 ..< ChanceForDisease config + 1} = ChanceForDisease config + 1 \<and>
            (\<lambda>l. handle_diseases config DELTA (d\<lparr>draw_disease := 1, draw_disease_length := l\<rparr>) p)
               ` {0 ..< nat \<lfloor>M\<rfloor>}
              = (\<lambda>v. Inr (p\<lparr>disease := Finite (of_int v)\<rparr>)) ` {1 .. \<lfloor>M\<rfloor>} \<and>
            inj_on (\<lambda>l. handle_diseases config DELTA
                       (d\<lparr>draw_disease := 1, draw_disease_length := l\<rparr>) p)
               {0 ..< nat \<lfloor>M\<rfloor>})"
proof -
  let ?C = "ChanceForDisease config"
  have healthy: "\<not> fgt (disease p) (Finite 0)"
    using fle_not_flt [OF assms] by (simp add: fgt_def)
  have never: "handle_diseases config DELTA d p = Inr p" if "?C = 0"
    using that healthy
    by (simp add: handle_diseases_def generate_random_def int_of_unsigned_def u32_def)
  have drawn: "card {w \<in> {0 ..< ?C + 1}.
                    handle_diseases config DELTA (d\<lparr>draw_disease := w\<rparr>) p \<noteq> Inr p} = 1 \<and>
            card {0 ..< ?C + 1} = ?C + 1 \<and>
            (\<lambda>l. handle_diseases config DELTA (d\<lparr>draw_disease := 1, draw_disease_length := l\<rparr>) p)
               ` {0 ..< nat \<lfloor>M\<rfloor>}
              = (\<lambda>v. Inr (p\<lparr>disease := Finite (of_int v)\<rparr>)) ` {1 .. \<lfloor>M\<rfloor>} \<and>
            inj_on (\<lambda>l. handle_diseases config DELTA
                       (d\<lparr>draw_disease := 1, draw_disease_length := l\<rparr>) p)
               {0 ..< nat \<lfloor>M\<rfloor>}"
    if cfg: "1 \<le> ?C \<and> ?C < 2 ^ 31 \<and> MaxLengthDisease config = Finite M \<and> 1 \<le> M \<and> M \<le> 2 ^ 24"
  proof -
    let ?M = "\<lfloor>M\<rfloor>"
    from cfg have C1: "1 \<le> ?C" and C31: "?C < 2 ^ 31" and maxlen: "MaxLengthDisease config = Finite M"
      and M1r: "1 \<le> M" and M24r: "M \<le> 2 ^ 24"
      by simp_all
    have C: "int_of_unsigned ?C = int ?C"
      using C31 by (simp add: int_of_unsigned_def u32_def)
    have M1: "1 \<le> ?M" using M1r by (simp add: le_floor_iff)
    have M24: "?M \<le> 2 ^ 24"
    proof -
      have "?M \<le> \<lfloor>2 ^ 24 :: real\<rfloor>" using M24r by (rule floor_mono)
      then show ?thesis by simp
    qed
    have M: "int_of_float (MaxLengthDisease config) = Inr ?M"
      using M1 M24 M1r by (simp add: maxlen INT_MIN_def INT_MAX_def)
    have draw: "generate_random 0 (int_of_unsigned ?C) w = Inr (int w)" if "w < ?C + 1" for w
      using generate_random_window [of 0 "int ?C" w] that by (simp add: C)
    have len: "generate_random 1 ?M l = Inr (1 + int l)" if "l < nat ?M" for l
      using generate_random_window [of 1 ?M l] that M1 by simp
    have stored: "float_of_int v = Finite (of_int v)" if "1 \<le> v" "v \<le> ?M" for v
    proof (rule float_round_int_exact)
      show "0 \<le> v" using that(1) by simp
      show "v \<le> 2 ^ 24" using that(2) M24 by (rule order_trans)
    qed
    have len_any: "\<exists>v. generate_random 1 ?M l = Inr v \<and> 1 \<le> v \<and> v \<le> ?M" for l
    proof -
      from M1 obtain v where v: "generate_random 1 ?M l = Inr v"
        by (auto simp: generate_random_def)
      with generate_random_range [OF v] show ?thesis by blast
    qed
    have hd1: "handle_diseases config DELTA (d\<lparr>draw_disease := 1, draw_disease_length := l\<rparr>) p
               = Inr (p\<lparr>disease := Finite (of_int (1 + int l))\<rparr>)" if "l < nat ?M" for l
    proof -
      from that have "1 + int l \<le> ?M" by linarith
      then have "float_of_int (1 + int l) = Finite (of_int (1 + int l))"
        by (intro stored) simp_all
      then show ?thesis
        using healthy C1 draw [of 1] len [OF that] M by (simp add: handle_diseases_def)
    qed
    have changed: "(handle_diseases config DELTA (d\<lparr>draw_disease := w\<rparr>) p \<noteq> Inr p) = (w = 1)"
      if "w < ?C + 1" for w
    proof (cases "w = 1")
      case True
      obtain v where v: "generate_random 1 ?M (draw_disease_length d) = Inr v"
        and v1: "1 \<le> v" and vM: "v \<le> ?M"
        using len_any by blast
      have "disease p \<noteq> Finite (of_int v)"
        using assms v1 by (cases "disease p") auto
      then have "disease (p\<lparr>disease := Finite (of_int v)\<rparr>) \<noteq> disease p" by simp
      then have "p\<lparr>disease := Finite (of_int v)\<rparr> \<noteq> p" by metis
      then show ?thesis
        using True healthy draw [OF that] v M stored [OF v1 vM]
        by (simp add: handle_diseases_def)
    next
      case False
      then show ?thesis
        using healthy draw [OF that] by (simp add: handle_diseases_def)
    qed
    have "{w \<in> {0 ..< ?C + 1}. handle_diseases config DELTA (d\<lparr>draw_disease := w\<rparr>) p \<noteq> Inr p} = {1}"
    proof (rule set_eqI)
      fix w
      show "w \<in> {w \<in> {0 ..< ?C + 1}. handle_diseases config DELTA (d\<lparr>draw_disease := w\<rparr>) p \<noteq> Inr p}
              \<longleftrightarrow> w \<in> {1}"
      proof (cases "w < ?C + 1")
        case True
        then show ?thesis using changed [OF True] by simp
      next
        case False
        then show ?thesis using C1 by auto
      qed
    qed
    then have one: "card {w \<in> {0 ..< ?C + 1}.
        handle_diseases config DELTA (d\<lparr>draw_disease := w\<rparr>) p \<noteq> Inr p} = 1"
      by simp
    have "(\<lambda>l. 1 + int l) ` {0 ..< nat ?M} = {1 .. ?M}"
    proof (rule set_eqI)
      fix v :: int
      show "v \<in> (\<lambda>l. 1 + int l) ` {0 ..< nat ?M} \<longleftrightarrow> v \<in> {1 .. ?M}"
      proof
        assume "v \<in> (\<lambda>l. 1 + int l) ` {0 ..< nat ?M}"
        then show "v \<in> {1 .. ?M}" by auto
      next
        assume v: "v \<in> {1 .. ?M}"
        then have v1: "1 \<le> v" and vM: "v \<le> ?M" by simp_all
        have "nat (v - 1) < nat ?M" using v1 vM by linarith
        then have "nat (v - 1) \<in> {0 ..< nat ?M}" by simp
        moreover have "v = 1 + int (nat (v - 1))" using v1 by simp
        ultimately show "v \<in> (\<lambda>l. 1 + int l) ` {0 ..< nat ?M}" by (rule rev_image_eqI)
      qed
    qed
    then have "(\<lambda>v. Inr (p\<lparr>disease := Finite (of_int v)\<rparr>) :: error + Person) ` {1 .. ?M}
        = (\<lambda>v. Inr (p\<lparr>disease := Finite (of_int v)\<rparr>)) ` ((\<lambda>l. 1 + int l) ` {0 ..< nat ?M})"
      by (rule arg_cong [OF sym])
    also have "\<dots> = (\<lambda>l. Inr (p\<lparr>disease := Finite (of_int (1 + int l))\<rparr>)) ` {0 ..< nat ?M}"
      by (simp only: image_image)
    also have "\<dots> = (\<lambda>l. handle_diseases config DELTA
        (d\<lparr>draw_disease := 1, draw_disease_length := l\<rparr>) p) ` {0 ..< nat ?M}"
    proof (rule image_cong)
      fix l
      assume "l \<in> {0 ..< nat ?M}"
      then have "l < nat ?M" by simp
      from hd1 [OF this]
      show "Inr (p\<lparr>disease := Finite (of_int (1 + int l))\<rparr>)
            = handle_diseases config DELTA (d\<lparr>draw_disease := 1, draw_disease_length := l\<rparr>) p"
        by (rule sym)
    qed (rule refl)
    finally have img: "(\<lambda>l. handle_diseases config DELTA
        (d\<lparr>draw_disease := 1, draw_disease_length := l\<rparr>) p) ` {0 ..< nat ?M}
        = (\<lambda>v. Inr (p\<lparr>disease := Finite (of_int v)\<rparr>)) ` {1 .. ?M}"
      by (rule sym)
    have inj: "inj_on (\<lambda>l. handle_diseases config DELTA
        (d\<lparr>draw_disease := 1, draw_disease_length := l\<rparr>) p) {0 ..< nat ?M}"
    proof (rule inj_onI)
      fix a b
      assume a: "a \<in> {0 ..< nat ?M}" and b: "b \<in> {0 ..< nat ?M}"
        and eq: "handle_diseases config DELTA (d\<lparr>draw_disease := 1, draw_disease_length := a\<rparr>) p
          = handle_diseases config DELTA (d\<lparr>draw_disease := 1, draw_disease_length := b\<rparr>) p"
      from a b have ab: "a < nat ?M" "b < nat ?M" by simp_all
      from eq hd1 [OF ab(1)] hd1 [OF ab(2)]
      have "p\<lparr>disease := Finite (of_int (1 + int a))\<rparr> = p\<lparr>disease := Finite (of_int (1 + int b))\<rparr>"
        by (simp only: sum.inject)
      then have "disease (p\<lparr>disease := Finite (of_int (1 + int a))\<rparr>)
          = disease (p\<lparr>disease := Finite (of_int (1 + int b))\<rparr>)"
        by (rule arg_cong)
      then show "a = b" by simp
    qed
    from one img inj show ?thesis by simp
  qed
  from never drawn show ?thesis by blast
qed

theorem new_infection_draw_witness:
  "handle_diseases (reference_config\<lparr>ChanceForDisease := 0\<rparr>) (Finite (1 / 64)) (draws_towards 0)
      (person red True 10 40) = Inr (person red True 10 40) \<and>
   card {w \<in> {0 ..< ChanceForDisease reference_config + 1}.
           handle_diseases reference_config (Finite (1 / 64)) ((draws_towards 0)\<lparr>draw_disease := w\<rparr>)
             (person red True 10 40) \<noteq> Inr (person red True 10 40)} = 1 \<and>
   card {0 ..< ChanceForDisease reference_config + 1} = ChanceForDisease reference_config + 1 \<and>
   (\<lambda>l. handle_diseases reference_config (Finite (1 / 64))
           ((draws_towards 0)\<lparr>draw_disease := 1, draw_disease_length := l\<rparr>) (person red True 10 40))
      ` {0 ..< nat \<lfloor>2 :: real\<rfloor>}
     = (\<lambda>v. Inr ((person red True 10 40)\<lparr>disease := Finite (of_int v)\<rparr>)) ` {1 .. \<lfloor>2 :: real\<rfloor>} \<and>
   inj_on (\<lambda>l. handle_diseases reference_config (Finite (1 / 64))
           ((draws_towards 0)\<lparr>draw_disease := 1, draw_disease_length := l\<rparr>) (person red True 10 40))
      {0 ..< nat \<lfloor>2 :: real\<rfloor>}"
proof -
  have healthy: "fle (disease (person red True 10 40)) (Finite 0)"
    by (simp add: person_def)
  have cfg0: "ChanceForDisease (reference_config\<lparr>ChanceForDisease := 0\<rparr>) = 0"
    by simp
  have cfg: "1 \<le> ChanceForDisease reference_config \<and> ChanceForDisease reference_config < 2 ^ 31 \<and>
    MaxLengthDisease reference_config = Finite 2 \<and> (1 :: real) \<le> 2 \<and> (2 :: real) \<le> 2 ^ 24"
    by (simp add: reference_config_def)
  from new_infection_draw [OF healthy, of "reference_config\<lparr>ChanceForDisease := 0\<rparr>"
      "Finite (1 / 64)" "draws_towards 0" 2] cfg0
  have a: "handle_diseases (reference_config\<lparr>ChanceForDisease := 0\<rparr>) (Finite (1 / 64))
      (draws_towards 0) (person red True 10 40) = Inr (person red True 10 40)"
    by blast
  from new_infection_draw [OF healthy, of reference_config "Finite (1 / 64)" "draws_towards 0" 2] cfg
  show ?thesis using a by blast
qed

subsection \<open>Birth (C8)\<close>

text \<open>
  C8 as stated does not hold for every parent strength: the lower bound of the draw is
  \<^verbatim>\<open>p.strength > 15 ? p.strength - 15 : 15\<close>, which is below 15 for a parent between 16 and
  29. A mother of strength 20 whose draw selects the least value gets a child of strength
  5, while \<open>max (20 - 15) 15 = 15\<close>.
\<close>

theorem newborn_strength_counterexample:
  "grid_after (update_person reference_config (Finite (1 / 64)) (draws_towards 0) 0 0 0
      (world 2 1 [(person red False 10 20)\<lparr>reproduction := Finite 0\<rparr>, inert_Person] [grass, grass]))
   = Inr [(person red False (10 + 1 / 64) 20)\<lparr>reproduction := Finite 3\<rparr>,
          \<lparr>is_updated = True, active = True, color = red, is_male = False,
           disease = Finite 0, reproduction = Finite 3, age = Finite 1, strength = 5\<rparr>] \<and>
   (5::int) < max (20 - 15) 15"
  by (simp add: model_defs split del: if_split)

text \<open>
  C8, amended: at a birth (the person is not male, its reproduction timer is at most 0,
  the target cell is inactive) the newborn in the target cell has a strength drawn by
  \<^verbatim>\<open>generate_random\<close> from the closed range from \<open>parentStrength - 15\<close> if
  \<open>parentStrength > 15\<close>, and from 15 otherwise, up to \<open>parentStrength + 30\<close>; its age is 1
  and its updated flag is set.
\<close>

theorem newborn_fields:
  assumes "Map_operator (map_v st) dx dy = Inr j"
    and "length grid = length (population_grid (map_v st))"
    and "i < length grid"
    and "\<not> active (grid ! j)"
    and "\<not> is_male (grid ! i)" and "fle (reproduction (grid ! i)) (Finite 0)"
    and "grid_after (meet_target config d idx_x idx_y i dx dy pixel_color st stats grid) = Inr g"
  shows "generate_random (if strength (grid ! i) > 15 then strength (grid ! i) - 15 else 15)
            (strength (grid ! i) + 30) (draw_baby_strength d) = Inr (strength (g ! j)) \<and>
         (if strength (grid ! i) > 15 then strength (grid ! i) - 15 else 15) \<le> strength (g ! j) \<and>
         strength (g ! j) \<le> strength (grid ! i) + 30 \<and>
         age (g ! j) = Finite 1 \<and> is_updated (g ! j)"
proof -
  have j: "j < length grid"
    using assms(1,2) by (simp add: Map_operator_in_grid)
  from assms(7) obtain st' where
    m: "meet_target config d idx_x idx_y i dx dy pixel_color st stats grid = Inr st'"
    and g: "g = population_grid (map_v st')"
    by (cases "meet_target config d idx_x idx_y i dx dy pixel_color st stats grid")
       (auto simp: grid_after_def)
  from assms(1,4,5,6) m obtain g' where
    b: "give_birth config d i j grid = Inr g'" and s: "store st stats g' dx dy pixel_color = Inr st'"
    by (auto simp: meet_target_def split: sum.splits)
  from s g have "g = g'" by (simp add: store_grid)
  with give_birth_baby [OF b assms(3) j] generate_random_range show ?thesis
    by metis
qed

theorem newborn_fields_witness:
  "generate_random 25 70 0 = Inr 25 \<and>
   grid_after (meet_target reference_config (draws_towards 0) 0 0 0 1 0 red
      (world 2 1 [(person red False 10 40)\<lparr>reproduction := Finite 0\<rparr>, inert_Person] [grass, grass])
      Map.empty [(person red False 10 40)\<lparr>reproduction := Finite 0\<rparr>, inert_Person])
   = Inr [(person red False 10 40)\<lparr>reproduction := Finite 3\<rparr>,
          \<lparr>is_updated = True, active = True, color = red, is_male = False,
           disease = Finite 0, reproduction = Finite 3, age = Finite 1, strength = 25\<rparr>]"
  using newborn_fields [of
      "world 2 1 [(person red False 10 40)\<lparr>reproduction := Finite 0\<rparr>, inert_Person] [grass, grass]"
      1 0 1 "[(person red False 10 40)\<lparr>reproduction := Finite 0\<rparr>, inert_Person]" 0
      reference_config "draws_towards 0" 0 0 red Map.empty
      "[(person red False 10 40)\<lparr>reproduction := Finite 3\<rparr>,
          \<lparr>is_updated = True, active = True, color = red, is_male = False,
           disease = Finite 0, reproduction = Finite 3, age = Finite 1, strength = 25\<rparr>]"]
  by (simp add: model_defs split del: if_split)

subsection \<open>Survival (C9)\<close>

text \<open>
  C9 as stated does not hold. A healthy person of age 84.9921875 and strength 100 has
  \<open>age < strength - \<Delta>t\<close> for \<open>\<Delta>t = 1/64\<close>, yet the test \<^verbatim>\<open>p.age >= 85.f\<close> kills it: the only
  cell of the world is inactive afterwards. A red person of age 10 and strength 40 that
  attacks a blue one of strength 50 leaves the update with the age 40, not \<open>10 + 1/64\<close>.
  And the age is a \<^verbatim>\<open>float\<close>: for the age \<open>11138935 / 2 ^ 17\<close> and \<open>\<Delta>t\<close> the \<^verbatim>\<open>float\<close>
  nearest to \<open>1/60\<close>, the exact sum is below 85, but \<^verbatim>\<open>p.age += DELTA\<close> stores the rounded
  sum 85 and the person dies.
\<close>

theorem survival_counterexample:
  "active (person red True (10879 / 128) 100) \<and>
   \<not> is_updated (person red True (10879 / 128) 100) \<and>
   disease (person red True (10879 / 128) 100) = Finite 0 \<and>
   flt (age (person red True (10879 / 128) 100))
       (fsub (float_of_int (strength (person red True (10879 / 128) 100))) (Finite (1 / 64))) \<and>
   grid_after (update_person reference_config (Finite (1 / 64)) (draws_towards 4) 0 0 0
      (world 1 1 [person red True (10879 / 128) 100] [water]))
   = Inr [inert_Person\<lparr>reproduction := Finite (- (1 / 64))\<rparr>] \<and>
   flt (age (person red True 10 40))
       (fsub (float_of_int (strength (person red True 10 40))) (Finite (1 / 64))) \<and>
   grid_after (update_person reference_config (Finite (1 / 64)) (draws_towards 0) 0 0 0
      (world 2 1 [person red True 10 40, person blue True 20 50] [grass, grass]))
   = Inr [person red True 40 40, person blue True 20 50] \<and>
   float_round (1 / 60) = Finite (8947849 / 536870912) \<and>
   float_round (11138935 / 131072) = Finite (11138935 / 131072) \<and>
   (11138935 / 131072 + 8947849 / 536870912 :: real) < 85 \<and>
   fadd (Finite (11138935 / 131072)) (Finite (8947849 / 536870912)) = Finite 85 \<and>
   flt (age (person red True (11138935 / 131072) 100))
       (fsub (float_of_int (strength (person red True (11138935 / 131072) 100)))
          (Finite (8947849 / 536870912))) \<and>
   grid_after (update_person reference_config (Finite (8947849 / 536870912)) (draws_towards 4) 0 0 0
      (world 1 1 [person red True (11138935 / 131072) 100] [water]))
   = Inr [inert_Person\<lparr>reproduction := Finite (- (8947849 / 536870912))\<rparr>]"
  by (simp add: model_defs split del: if_split)

text \<open>
  C9, amended: write \<open>age \<oplus> \<Delta>t\<close> for the \<^verbatim>\<open>float\<close> sum that \<^verbatim>\<open>p.age += DELTA\<close> stores (the
  exact sum rounded to binary32). For an active, non-updated, healthy person
  (\<open>disease \<le> 0\<close>) with \<open>age \<oplus> \<Delta>t < (float) strength\<close> and \<open>age \<oplus> \<Delta>t < 85\<close>, the update of
  its cell, when it returns, leaves the person alive. Either it is still in its cell with
  the age \<open>age \<oplus> \<Delta>t\<close>; or it is still in its cell and has lost a fight against a strictly
  stronger person of another group, and its age is its own strength as a \<^verbatim>\<open>float\<close>; or it
  has walked: its cell is inactive, and a cell that was inactive holds it, active and
  marked as updated, with the age \<open>age \<oplus> \<Delta>t\<close>.
\<close>

theorem healthy_agent_survives:
  assumes i: "i < length (population_grid (map_v st))"
    and p: "p = population_grid (map_v st) ! i"
    and live: "active p" "\<not> is_updated p"
    and healthy: "fle (disease p) (Finite 0)"
    and young: "flt (fadd (age p) DELTA) (float_of_int (strength p))"
               "flt (fadd (age p) DELTA) (Finite 85)"
    and res: "grid_after (update_person config DELTA d idx_x idx_y i st) = Inr g"
  shows "(active (g ! i) \<and> age (g ! i) = fadd (age p) DELTA) \<or>
         (active (g ! i) \<and> age (g ! i) = float_of_int (strength p) \<and>
            (\<exists>j < length (population_grid (map_v st)).
                active (population_grid (map_v st) ! j) \<and>
                color (population_grid (map_v st) ! j) \<noteq> color p \<and>
                strength p < strength (population_grid (map_v st) ! j))) \<or>
         (\<not> active (g ! i) \<and>
            (\<exists>j < length (population_grid (map_v st)).
                \<not> active (population_grid (map_v st) ! j) \<and>
                active (g ! j) \<and> is_updated (g ! j) \<and> age (g ! j) = fadd (age p) DELTA \<and>
                strength (g ! j) = strength p \<and> color (g ! j) = color p))"
proof -
  let ?grid = "population_grid (map_v st)"
  let ?q = "decrease_reproduction DELTA (age_and_check_dead DELTA (?grid ! i))"
  from res obtain st' where u: "update_person config DELTA d idx_x idx_y i st = Inr st'"
    and g: "g = population_grid (map_v st')"
    by (rule grid_after_Inr)
  from update_person_cases [OF u] live p
  have "update_active config DELTA d idx_x idx_y i st = Inr st'" by simp
  then obtain p2 where
    h: "handle_diseases config DELTA d ?q = Inr p2"
    and c: "(\<exists>dx dy stats. meet_target config d idx_x idx_y i dx dy (pixel_color_of p2) st stats
               (?grid[i := p2]) = Inr st') \<or>
            (\<exists>stats. store st stats (?grid[i := p2]) idx_x idx_y (pixel_color_of p2) = Inr st')"
    by (rule update_active_cases)
  have q: "active ?q = active p" "age ?q = fadd (age p) DELTA" "strength ?q = strength p"
    "color ?q = color p" "disease ?q = disease p"
    using survivor_fields [OF young] p by simp_all
  have "\<not> fgt (disease ?q) (Finite 0)"
    using fle_not_flt [OF healthy] q(5) by (simp add: fgt_def)
  with handle_diseases_fields [OF h] q live
  have p2: "active p2" "age p2 = fadd (age p) DELTA" "strength p2 = strength p" "color p2 = color p"
    by simp_all
  from c show ?thesis
  proof
    assume "\<exists>dx dy stats. meet_target config d idx_x idx_y i dx dy (pixel_color_of p2) st stats
               (?grid[i := p2]) = Inr st'"
    then obtain dx dy stats where m: "meet_target config d idx_x idx_y i dx dy (pixel_color_of p2)
        st stats (?grid[i := p2]) = Inr st'"
      by blast
    have il: "i < length (?grid[i := p2])" and len: "length (?grid[i := p2]) = length ?grid"
      and at_i: "?grid[i := p2] ! i = p2"
      using i by simp_all
    have act: "active (?grid[i := p2] ! i)" using p2(1) at_i by simp
    from meet_target_actor [OF m il len act]
    consider
        (same) "active (g ! i)" "age (g ! i) = age p2"
      | (lost) j where "active (g ! i)" "age (g ! i) = float_of_int (strength p2)"
          "j < length ?grid" "active (?grid[i := p2] ! j)"
          "color (?grid[i := p2] ! j) \<noteq> color p2" "strength p2 < strength (?grid[i := p2] ! j)"
      | (walked) j where "\<not> active (g ! i)" "j < length ?grid" "\<not> active (?grid[i := p2] ! j)"
          "g ! j = p2\<lparr>is_updated := True\<rparr>"
      unfolding g at_i len by blast
    then show ?thesis
    proof cases
      case same
      then show ?thesis using p2 by simp
    next
      case lost
      from lost(5) have "j \<noteq> i" using at_i by auto
      with lost have "active (?grid ! j)" "color (?grid ! j) \<noteq> color p"
        "strength p < strength (?grid ! j)"
        using p2 by simp_all
      with lost(1,2,3) p2 show ?thesis by auto
    next
      case walked
      from walked(3) have "j \<noteq> i" using at_i p2(1) by auto
      with walked(3) have "\<not> active (?grid ! j)" by simp
      with walked p2 show ?thesis by auto
    qed
  next
    assume "\<exists>stats. store st stats (?grid[i := p2]) idx_x idx_y (pixel_color_of p2) = Inr st'"
    then have "g = ?grid[i := p2]" using g by (auto simp: store_grid)
    with i p2 show ?thesis by simp
  qed
qed

theorem healthy_agent_survives_witness:
  "grid_after (update_person reference_config (Finite (1 / 64)) (draws_towards 0) 0 0 0
      (world 2 1 [person red True 10 40, inert_Person] [grass, grass]))
   = Inr [(person red True (10 + 1 / 64) 40)\<lparr>active := False\<rparr>,
          (person red True (10 + 1 / 64) 40)\<lparr>is_updated := True\<rparr>] \<and>
   active ((person red True (10 + 1 / 64) 40)\<lparr>is_updated := True\<rparr>) \<and>
   age ((person red True (10 + 1 / 64) 40)\<lparr>is_updated := True\<rparr>)
     = fadd (age (person red True 10 40)) (Finite (1 / 64))"
proof -
  have res: "grid_after (update_person reference_config (Finite (1 / 64)) (draws_towards 0) 0 0 0
      (world 2 1 [person red True 10 40, inert_Person] [grass, grass]))
   = Inr [(person red True (10 + 1 / 64) 40)\<lparr>active := False\<rparr>,
          (person red True (10 + 1 / 64) 40)\<lparr>is_updated := True\<rparr>]"
    by (simp add: model_defs split del: if_split)
  have "(0::nat) < length (population_grid (map_v
      (world 2 1 [person red True 10 40, inert_Person] [grass, grass])))"
    and "person red True 10 40 = population_grid (map_v
      (world 2 1 [person red True 10 40, inert_Person] [grass, grass])) ! 0"
    and "active (person red True 10 40)" and "\<not> is_updated (person red True 10 40)"
    and "fle (disease (person red True 10 40)) (Finite 0)"
    and "flt (fadd (age (person red True 10 40)) (Finite (1 / 64)))
           (float_of_int (strength (person red True 10 40)))"
    and "flt (fadd (age (person red True 10 40)) (Finite (1 / 64))) (Finite 85)"
    by (simp_all add: world_def person_def float_of_int_def float_eval split del: if_split)
  from healthy_agent_survives [OF this res] res show ?thesis
    by (simp add: person_def float_eval split del: if_split)
qed

subsection \<open>Averages of the statistics (C10)\<close>

text \<open>
  C10: the formatter never divides by zero. The divisor of both averages is never 0; a
  positive \<open>count_total\<close> divides the sums, and a \<open>count_total\<close> of 0 divides them by 1, which
  leaves the sums (0 for an empty group).
\<close>

theorem statistics_division:
  "avg_divisor (alive_total (team_statistics s)) \<noteq> 0 \<and>
   (0 < count_total s \<and> count_total s \<le> INT_MAX \<longrightarrow>
      avg_str (team_statistics s) = unsigned_of_int (sum_strength s) div nat (count_total s) \<and>
      avg_age (team_statistics s) = unsigned_of_int (sum_age s) div nat (count_total s)) \<and>
   (count_total s = 0 \<longrightarrow>
      avg_str (team_statistics s) = unsigned_of_int (sum_strength s) div 1 \<and>
      avg_age (team_statistics s) = unsigned_of_int (sum_age s) div 1 \<and>
      (sum_strength s = 0 \<longrightarrow> avg_str (team_statistics s) = 0) \<and>
      (sum_age s = 0 \<longrightarrow> avg_age (team_statistics s) = 0))"
proof -
  have pos: "unsigned_of_int (count_total s) = nat (count_total s)"
    if "0 < count_total s" "count_total s \<le> INT_MAX"
    using that by (simp add: unsigned_of_int_def INT_MAX_def)
  show ?thesis
    using pos by (auto simp: team_statistics_def avg_divisor_def Let_def unsigned_of_int_def)
qed

theorem statistics_division_witness:
  "avg_str (team_statistics \<lparr>count_total = 4, count_diseased = 1, sum_strength = 210, sum_age = 90\<rparr>) = 52 \<and>
   avg_age (team_statistics \<lparr>count_total = 4, count_diseased = 1, sum_strength = 210, sum_age = 90\<rparr>) = 22 \<and>
   avg_str (team_statistics \<lparr>count_total = 0, count_diseased = 0, sum_strength = 0, sum_age = 0\<rparr>) = 0 \<and>
   avg_age (team_statistics \<lparr>count_total = 0, count_diseased = 0, sum_strength = 0, sum_age = 0\<rparr>) = 0"
  using statistics_division [of "\<lparr>count_total = 4, count_diseased = 1, sum_strength = 210, sum_age = 90\<rparr>"]
        statistics_division [of "\<lparr>count_total = 0, count_diseased = 0, sum_strength = 0, sum_age = 0\<rparr>"]
  by (simp add: INT_MAX_def unsigned_of_int_def)

end
